theory Spec2Isabelle
  imports Complex_Main "HOL-Library.AList"
begin

section \<open>Entity model (family.py, workshop.py)\<close>

text \<open>
  Python integers are unbounded, so identifiers, sizes and day numbers are \<open>int\<close>,
  as the classes annotate them (identifiers are only ever compared for equality).
  The field \<open>id\<close> of the class \<open>Family\<close> is called \<open>family_id\<close> here, after the
  constructor's parameter, since \<open>id\<close> is the identity function of HOL.
\<close>

record family =
  family_id :: int
  n_members :: int
  preferences :: "int list"
  assigned_day :: int

text \<open>\<open>Family.__init__\<close>: a new family is unassigned, which is the sentinel \<open>-1\<close>.\<close>

definition Family :: "int \<Rightarrow> int \<Rightarrow> int list \<Rightarrow> family" where
  "Family fid n prefs =
     \<lparr>family_id = fid, n_members = n, preferences = prefs, assigned_day = - 1\<rparr>"

definition assign_to :: "family \<Rightarrow> int \<Rightarrow> family" where
  "assign_to fam day = fam\<lparr>assigned_day := day\<rparr>"

text \<open>
  A \<open>WorkshopDay\<close> keeps references to \<open>Family\<close> objects. Every family object of a run
  lives in the orchestrator's repository under one key, so a reference is modelled as
  that key: a later mutation of the family is then seen through the day's list, as it
  is in Python.
\<close>

record workshop_day =
  day_id :: int
  assigned_families :: "int list"
  current_occupancy :: int

definition MAX_CAPACITY :: int where "MAX_CAPACITY = 300"
definition MIN_CAPACITY :: int where "MIN_CAPACITY = 100"

definition WorkshopDay :: "int \<Rightarrow> workshop_day" where
  "WorkshopDay d = \<lparr>day_id = d, assigned_families = [], current_occupancy = 0\<rparr>"

text \<open>\<open>WorkshopDay.add_family\<close>, given the reference and the object it points to.\<close>

definition add_family :: "workshop_day \<Rightarrow> int \<Rightarrow> family \<Rightarrow> workshop_day" where
  "add_family wd ref fam =
     wd\<lparr>assigned_families := assigned_families wd @ [ref],
        current_occupancy := current_occupancy wd + n_members fam\<rparr>"

section \<open>Errors\<close>

datatype error = KeyError | ValueError | AttributeError

section \<open>Linear expressions and constraints\<close>

text \<open>
  The rules of the model build symbolic expressions over the variables
  \<open>x[fam_id, day]\<close> and \<open>z[day]\<close>; a constraint is an inequality between two of them.
\<close>

datatype var = X int int | Z int

datatype expr = Num int | V var | Times expr expr | Plus expr expr

datatype constr = LE expr expr | GE expr expr

type_synonym valuation = "var \<Rightarrow> int"

fun eval :: "valuation \<Rightarrow> expr \<Rightarrow> int" where
  "eval v (Num n) = n"
| "eval v (V y) = v y"
| "eval v (Times a b) = eval v a * eval v b"
| "eval v (Plus a b) = eval v a + eval v b"

fun sat :: "valuation \<Rightarrow> constr \<Rightarrow> bool" where
  "sat v (LE a b) = (eval v a \<le> eval v b)"
| "sat v (GE a b) = (eval v a \<ge> eval v b)"

text \<open>Python's \<open>sum\<close> adds the items to the integer 0, from the left.\<close>

definition py_sum :: "expr list \<Rightarrow> expr" where
  "py_sum es = foldl Plus (Num 0) es"

section \<open>Problem builder (solver\_engine.py, SantaSolver.solve)\<close>

definition HAPPINESS_POINTS :: "(nat \<times> int) list" where
  "HAPPINESS_POINTS =
     [(0, 100), (1, 90), (2, 85), (3, 80), (4, 75),
      (5, 70), (6, 60), (7, 50), (8, 40), (9, 30)]"

text \<open>Lines 28 to 31: the list of valid (family, day) pairs.\<close>

definition valid_assignments :: "family list \<Rightarrow> (int \<times> int) list" where
  "valid_assignments families =
     concat (map (\<lambda>fam. map (\<lambda>day. (family_id fam, day)) (preferences fam)) families)"

text \<open>
  A Pyomo \<open>Set\<close> initialised from a list keeps the order of first insertion and drops
  repeated elements.
\<close>

definition ordered_set :: "'a list \<Rightarrow> 'a list" where
  "ordered_set xs = rev (remdups (rev xs))"

text \<open>
  The objective rule (lines 45 to 51). \<open>HAPPINESS_POINTS[rank]\<close> raises \<open>KeyError\<close> for
  a rank that is not in the table.
\<close>

fun objective_ranks :: "family \<Rightarrow> expr \<Rightarrow> (nat \<times> int) list \<Rightarrow> error + expr" where
  "objective_ranks f total_happiness [] = Inr total_happiness"
| "objective_ranks f total_happiness ((rank, day) # rest) =
     (case map_of HAPPINESS_POINTS rank of
        None \<Rightarrow> Inl KeyError
      | Some p \<Rightarrow>
          objective_ranks f (Plus total_happiness (Times (V (X (family_id f) day)) (Num p))) rest)"

fun objective_families :: "expr \<Rightarrow> family list \<Rightarrow> error + expr" where
  "objective_families total_happiness [] = Inr total_happiness"
| "objective_families total_happiness (f # fs) =
     (case objective_ranks f total_happiness (enumerate 0 (preferences f)) of
        Inl e \<Rightarrow> Inl e
      | Inr total_happiness' \<Rightarrow> objective_families total_happiness' fs)"

definition objective_rule :: "family list \<Rightarrow> error + expr" where
  "objective_rule families = objective_families (Num 0) families"

text \<open>
  The rule of the constraint \<open>OneDay\<close> (lines 58 to 61). \<open>next(..., None)\<close> takes the first family
  with the identifier. When the preference list is empty, \<open>sum\<close> returns the integer 0
  and the rule returns the Python boolean \<open>0 <= 1\<close>, which Pyomo rejects with a
  \<open>ValueError\<close> (a constraint must be an expression).
\<close>

definition one_day_rule :: "family list \<Rightarrow> int \<Rightarrow> error + constr" where
  "one_day_rule families fam_id =
     (case find (\<lambda>f. family_id f = fam_id) families of
        None \<Rightarrow> Inl AttributeError
      | Some current_fam \<Rightarrow>
          if preferences current_fam = [] then Inl ValueError
          else Inr (LE (py_sum (map (\<lambda>d. V (X fam_id d)) (preferences current_fam)))
                       (Num 1)))"

text \<open>
  The demand map (lines 66 to 69): a dictionary from every day of the range to the
  families that list it. \<open>day_demand_map[d]\<close> raises \<open>KeyError\<close> for a preferred day
  outside the range.
\<close>

fun demand_days :: "family \<Rightarrow> (int \<rightharpoonup> family list) \<Rightarrow> int list \<Rightarrow> error + (int \<rightharpoonup> family list)" where
  "demand_days f dm [] = Inr dm"
| "demand_days f dm (d # ds) =
     (case dm d of
        None \<Rightarrow> Inl KeyError
      | Some fs \<Rightarrow> demand_days f (dm(d \<mapsto> fs @ [f])) ds)"

fun demand_families :: "(int \<rightharpoonup> family list) \<Rightarrow> family list \<Rightarrow> error + (int \<rightharpoonup> family list)" where
  "demand_families dm [] = Inr dm"
| "demand_families dm (f # fs) =
     (case demand_days f dm (preferences f) of
        Inl e \<Rightarrow> Inl e
      | Inr dm' \<Rightarrow> demand_families dm' fs)"

definition day_demand_map :: "family list \<Rightarrow> int list \<Rightarrow> error + (int \<rightharpoonup> family list)" where
  "day_demand_map families days_range =
     demand_families (map_of (map (\<lambda>d. (d, [])) days_range)) families"

definition occupancy_expr :: "family list \<Rightarrow> int \<Rightarrow> expr" where
  "occupancy_expr fs d =
     py_sum (map (\<lambda>f. Times (V (X (family_id f) d)) (Num (n_members f))) fs)"

text \<open>
  The rules of \<open>MinOpen\<close> and \<open>MaxOpen\<close> (lines 73 to 79 and 85 to 90); \<open>None\<close> is
  \<open>Constraint.Skip\<close>.
\<close>

definition min_opening_rule :: "(int \<rightharpoonup> family list) \<Rightarrow> int \<Rightarrow> error + constr" where
  "min_opening_rule dm d =
     (case dm d of
        None \<Rightarrow> Inl KeyError
      | Some fs \<Rightarrow>
          if fs = [] then Inr (GE (Num 0) (Times (Num 100) (V (Z d))))
          else Inr (GE (occupancy_expr fs d) (Times (Num 100) (V (Z d)))))"

definition max_opening_rule :: "(int \<rightharpoonup> family list) \<Rightarrow> int \<Rightarrow> error + constr option" where
  "max_opening_rule dm d =
     (case dm d of
        None \<Rightarrow> Inl KeyError
      | Some fs \<Rightarrow>
          if fs = [] then Inr None
          else Inr (Some (LE (occupancy_expr fs d) (Times (Num 300) (V (Z d))))))"

text \<open>
  An indexed constraint block calls its rule on every index, in order, and stops at
  the first exception.
\<close>

fun constraint_block :: "('i \<Rightarrow> error + 'c) \<Rightarrow> 'i list \<Rightarrow> error + ('i \<times> 'c) list" where
  "constraint_block rule [] = Inr []"
| "constraint_block rule (i # is) =
     (case rule i of
        Inl e \<Rightarrow> Inl e
      | Inr c \<Rightarrow>
          (case constraint_block rule is of
             Inl e \<Rightarrow> Inl e
           | Inr cs \<Rightarrow> Inr ((i, c) # cs)))"

definition drop_skipped :: "('i \<times> 'c option) list \<Rightarrow> ('i \<times> 'c) list" where
  "drop_skipped cs = concat (map (\<lambda>(i, c). case c of None \<Rightarrow> [] | Some c' \<Rightarrow> [(i, c')]) cs)"

text \<open>
  The model: the three index sets, the objective and its sense, the three constraint
  blocks, and the value that each \<open>x\<close> variable holds (none until a solution is
  loaded). The variables \<open>x\<close> and \<open>z\<close> are binary and indexed by \<open>Assignments\<close> and
  \<open>Days\<close>.
\<close>

datatype sense = minimize | maximize

record lp_model =
  Assignments :: "(int \<times> int) list"
  Days :: "int list"
  Families :: "int list"
  Obj :: expr
  Obj_sense :: sense
  OneDay :: "(int \<times> constr) list"
  MinOpen :: "(int \<times> constr) list"
  MaxOpen :: "(int \<times> constr) list"
  x_value :: "int \<times> int \<Rightarrow> rat option"

definition x_vars :: "lp_model \<Rightarrow> var list" where
  "x_vars m = map (\<lambda>(fam_id, day). X fam_id day) (Assignments m)"

definition z_vars :: "lp_model \<Rightarrow> var list" where
  "z_vars m = map Z (Days m)"

text \<open>Lines 24 to 92 of \<open>SantaSolver.solve\<close>, in the order in which Pyomo builds them.\<close>

definition build_model :: "family list \<Rightarrow> int list \<Rightarrow> error + lp_model" where
  "build_model families days_range =
     (let assignments = ordered_set (valid_assignments families);
          days = ordered_set days_range;
          fams = ordered_set (map family_id families)
      in case objective_rule families of
           Inl e \<Rightarrow> Inl e
         | Inr obj \<Rightarrow>
         (case constraint_block (one_day_rule families) fams of
           Inl e \<Rightarrow> Inl e
         | Inr c1 \<Rightarrow>
         (case day_demand_map families days_range of
           Inl e \<Rightarrow> Inl e
         | Inr dm \<Rightarrow>
         (case constraint_block (min_opening_rule dm) days of
           Inl e \<Rightarrow> Inl e
         | Inr c2 \<Rightarrow>
         (case constraint_block (max_opening_rule dm) days of
           Inl e \<Rightarrow> Inl e
         | Inr c3 \<Rightarrow>
             Inr \<lparr>Assignments = assignments, Days = days, Families = fams,
                  Obj = obj, Obj_sense = maximize,
                  OneDay = c1, MinOpen = c2, MaxOpen = drop_skipped c3,
                  x_value = (\<lambda>_. None)\<rparr>)))))"

text \<open>
  A valuation is feasible when every variable of the model is binary and every
  generated constraint holds.
\<close>

definition binary :: "valuation \<Rightarrow> var \<Rightarrow> bool" where
  "binary v y = (v y = 0 \<or> v y = 1)"

definition is_feasible :: "lp_model \<Rightarrow> valuation \<Rightarrow> bool" where
  "is_feasible m v =
     (list_all (binary v) (x_vars m) \<and> list_all (binary v) (z_vars m) \<and>
      list_all (\<lambda>(i, c). sat v c) (OneDay m) \<and>
      list_all (\<lambda>(d, c). sat v c) (MinOpen m) \<and>
      list_all (\<lambda>(d, c). sat v c) (MaxOpen m))"

section \<open>Quantities the properties are stated with\<close>

text \<open>
  The families that the demand map holds for a day: every family once for each time
  the day occurs in its preference list, in the order of the two loops.
\<close>

definition demand_list :: "family list \<Rightarrow> int \<Rightarrow> family list" where
  "demand_list families d =
     concat (map (\<lambda>f. map (\<lambda>_. f) (filter (\<lambda>d'. d' = d) (preferences f))) families)"

text \<open>
  The occupancy of a day under a valuation: the members of the families whose
  variable for that day is 1.
\<close>

definition day_occupancy :: "family list \<Rightarrow> valuation \<Rightarrow> int \<Rightarrow> int" where
  "day_occupancy families v d =
     sum_list (map n_members
       (filter (\<lambda>f. d \<in> set (preferences f) \<and> v (X (family_id f) d) = 1) families))"

definition zero_valuation :: valuation where
  "zero_valuation = (\<lambda>_. 0)"

text \<open>The score of each rank, and the happiness a family adds over the ranks 0 to 9.\<close>

definition score_table :: "int list" where
  "score_table = [100, 90, 85, 80, 75, 70, 60, 50, 40, 30]"

definition family_happiness :: "valuation \<Rightarrow> family \<Rightarrow> int" where
  "family_happiness v f =
     (\<Sum>rank\<leftarrow>[0..<10]. v (X (family_id f) (preferences f ! rank)) * (score_table ! rank))"

section \<open>Solver adapter and result extractor (solver\_engine.py)\<close>

text \<open>
  The termination conditions of Pyomo. The external solver is a parameter: given the
  model and its options it either returns results, together with the values it
  loads into the \<open>x\<close> variables, or raises an exception (a subclass of \<open>Exception\<close>).
\<close>

datatype termination_condition =
    unknown | maxTimeLimit | maxIterations | minFunctionValue | minStepLength
  | globallyOptimal | locallyOptimal | feasible | optimal | maxEvaluations | other
  | unbounded | infeasible | infeasibleOrUnbounded | invalidProblem
  | intermediateNonInteger | noSolution | solverFailure | internalSolverError
  | error | userInterrupt | resourceInterrupt | licensingProblems

record solver_results =
  termination_condition :: termination_condition

datatype oracle_outcome =
    Returned solver_results "int \<times> int \<Rightarrow> rat option"
  | Raised

type_synonym external_solver = "lp_model \<Rightarrow> (string \<times> rat) list \<Rightarrow> oracle_outcome"

record santa_solver =
  model :: "lp_model option"
  results :: "solver_results option"

definition SantaSolver :: santa_solver where
  "SantaSolver = \<lparr>model = None, results = None\<rparr>"

definition solver_options :: "(string \<times> rat) list" where
  "solver_options = [(''seconds'', 450), (''ratio'', 1 / 100)]"

text \<open>
  \<open>SantaSolver.solve\<close>. The model is built outside the \<open>try\<close> block, so an exception
  of the builder reaches the caller; an exception of the solver does not.
\<close>

definition SantaSolver_solve ::
  "external_solver \<Rightarrow> santa_solver \<Rightarrow> family list \<Rightarrow> int list \<Rightarrow> error + (santa_solver \<times> bool)" where
  "SantaSolver_solve optimizer self families days_range =
     (case build_model families days_range of
        Inl e \<Rightarrow> Inl e
      | Inr m \<Rightarrow>
          (case optimizer m solver_options of
             Raised \<Rightarrow> Inr (self\<lparr>model := Some m\<rparr>, False)
           | Returned res vals \<Rightarrow>
               Inr (self\<lparr>model := Some (m\<lparr>x_value := vals\<rparr>), results := Some res\<rparr>,
                    termination_condition res \<in> set [optimal, feasible, maxTimeLimit])))"

text \<open>
  \<open>get_raw_assignments\<close>. The result is a dictionary, kept as an association list in
  insertion order; \<open>pyo.value\<close> raises \<open>ValueError\<close> on a variable without a value.
  Solver values are floating-point numbers, each of them a rational, and the
  comparison with 0.5 is exact.
\<close>

fun raw_loop ::
  "(int \<times> int \<Rightarrow> rat option) \<Rightarrow> (int \<times> int) list \<Rightarrow> (int \<times> int) list \<Rightarrow> error + (int \<times> int) list" where
  "raw_loop xv assignments [] = Inr assignments"
| "raw_loop xv assignments ((fam_id, day) # rest) =
     (case xv (fam_id, day) of
        None \<Rightarrow> Inl ValueError
      | Some val \<Rightarrow>
          if val > 1 / 2 then raw_loop xv (AList.update fam_id day assignments) rest
          else raw_loop xv assignments rest)"

definition get_raw_assignments :: "santa_solver \<Rightarrow> error + (int \<times> int) list" where
  "get_raw_assignments self =
     (case model self of
        None \<Rightarrow> Inr []
      | Some m \<Rightarrow> raw_loop (x_value m) [] (Assignments m))"

text \<open>A variable is selected when it has a value above one half.\<close>

definition selected :: "(int \<times> int \<Rightarrow> rat option) \<Rightarrow> int \<times> int \<Rightarrow> bool" where
  "selected xv p = (case xv p of None \<Rightarrow> False | Some val \<Rightarrow> val > 1 / 2)"

section \<open>Orchestrator (solution\_manager.py)\<close>

text \<open>
  The two repositories are dictionaries, kept as association lists in insertion
  order. Of the printed output only the lines that report an outcome are kept; the
  average occupancy, a floating-point number, is left out of the capacity report.
\<close>

datatype message =
    No_feasible_solution_found
  | Families_assigned int
  | Families_without_slot int
  | Note_marked_x int
  | Capacity_report int int int int int

record solution_manager =
  families :: "(int \<times> family) list"
  days :: "(int \<times> workshop_day) list"
  solver_engine :: santa_solver

definition SolutionManager :: solution_manager where
  "SolutionManager = \<lparr>families = [], days = [], solver_engine = SantaSolver\<rparr>"

text \<open>
  \<open>load_data\<close>, from the rows that pandas has read: a row holds the family
  identifier, the number of members and the columns \<open>day0\<close> to \<open>day9\<close>. Every row is
  stored under its identifier, a later row replacing an earlier one with the same
  identifier, and the days 1 to 100 are created.
\<close>

record input_row =
  familyID :: int
  nrMembers :: int
  day0 :: int
  day1 :: int
  day2 :: int
  day3 :: int
  day4 :: int
  day5 :: int
  day6 :: int
  day7 :: int
  day8 :: int
  day9 :: int

definition load_row :: "input_row \<Rightarrow> (int \<times> family) list \<Rightarrow> (int \<times> family) list" where
  "load_row row fs =
     (let prefs = [day0 row, day1 row, day2 row, day3 row, day4 row,
                   day5 row, day6 row, day7 row, day8 row, day9 row];
          fam_id = familyID row;
          n_members = nrMembers row
      in AList.update fam_id (Family fam_id n_members prefs) fs)"

definition load_data :: "solution_manager \<Rightarrow> input_row list \<Rightarrow> solution_manager" where
  "load_data self rows =
     self\<lparr>families := fold load_row rows (families self),
          days := fold (\<lambda>d ds. AList.update d (WorkshopDay d) ds) [1..100] (days self)\<rparr>"

text \<open>Lines 59 and 60 of \<open>_apply_results\<close>.\<close>

definition reset_assignments :: "(int \<times> family) list \<Rightarrow> (int \<times> family) list" where
  "reset_assignments fs = map (\<lambda>(k, fam). (k, fam\<lparr>assigned_day := - 1\<rparr>)) fs"

text \<open>
  Lines 62 to 67. \<open>self.days[day]\<close> raises \<open>KeyError\<close> for a day that the repository
  does not hold.
\<close>

fun apply_loop ::
  "solution_manager \<Rightarrow> int \<Rightarrow> (int \<times> int) list \<Rightarrow> error + (solution_manager \<times> int)" where
  "apply_loop self assigned_count [] = Inr (self, assigned_count)"
| "apply_loop self assigned_count ((fam_id, day) # rest) =
     (case map_of (families self) fam_id of
        None \<Rightarrow> apply_loop self assigned_count rest
      | Some fam0 \<Rightarrow>
          (let fam = assign_to fam0 day;
               self1 = self\<lparr>families := AList.update fam_id fam (families self)\<rparr>
           in case map_of (days self1) day of
                None \<Rightarrow> Inl KeyError
              | Some wd \<Rightarrow>
                  apply_loop
                    (self1\<lparr>days := AList.update day (add_family wd fam_id fam) (days self1)\<rparr>)
                    (assigned_count + 1) rest))"

text \<open>\<open>_apply_results\<close> from line 56 on, for a given raw assignment map.\<close>

definition apply_raw ::
  "solution_manager \<Rightarrow> (int \<times> int) list \<Rightarrow> error + (solution_manager \<times> message list)" where
  "apply_raw self raw_assignments =
     (case apply_loop (self\<lparr>families := reset_assignments (families self)\<rparr>) 0 raw_assignments of
        Inl e \<Rightarrow> Inl e
      | Inr (self', assigned_count) \<Rightarrow>
          (let unassigned_count = int (length (families self')) - assigned_count
           in Inr (self',
                   [Families_assigned assigned_count, Families_without_slot unassigned_count]
                   @ (if unassigned_count > 0 then [Note_marked_x unassigned_count] else []))))"

definition apply_results :: "solution_manager \<Rightarrow> error + (solution_manager \<times> message list)" where
  "apply_results self =
     (case get_raw_assignments (solver_engine self) of
        Inl e \<Rightarrow> Inl e
      | Inr raw_assignments \<Rightarrow> apply_raw self raw_assignments)"

text \<open>\<open>print_occupancy_stats\<close>: \<open>min\<close> of an empty list raises \<open>ValueError\<close>.\<close>

definition print_occupancy_stats :: "solution_manager \<Rightarrow> error + message list" where
  "print_occupancy_stats self =
     (let occupancies = map (\<lambda>(k, d). current_occupancy d) (days self)
      in if occupancies = [] then Inl ValueError
         else Inr [Capacity_report
                     (fold min (tl occupancies) (hd occupancies))
                     (fold max (tl occupancies) (hd occupancies))
                     (int (length (filter (\<lambda>x. x = 0) occupancies)))
                     (int (length (filter (\<lambda>x. 0 < x \<and> x < 100) occupancies)))
                     (int (length (filter (\<lambda>x. x > 300) occupancies)))])"

text \<open>\<open>SolutionManager.solve\<close>.\<close>

definition SolutionManager_solve ::
  "external_solver \<Rightarrow> solution_manager \<Rightarrow> error + (solution_manager \<times> message list)" where
  "SolutionManager_solve optimizer self =
     (case SantaSolver_solve optimizer (solver_engine self)
             (map snd (families self)) (map fst (days self)) of
        Inl e \<Rightarrow> Inl e
      | Inr (engine, success) \<Rightarrow>
          (let self1 = self\<lparr>solver_engine := engine\<rparr>
           in if success then
                (case apply_results self1 of
                   Inl e \<Rightarrow> Inl e
                 | Inr (self2, log1) \<Rightarrow>
                     (case print_occupancy_stats self2 of
                        Inl e \<Rightarrow> Inl e
                      | Inr log2 \<Rightarrow> Inr (self2, log1 @ log2)))
              else Inr (self1, [No_feasible_solution_found])))"

section \<open>Notions used in the statements and proofs\<close>

text \<open>
  What a caller can observe of a run of the orchestrator: the two repositories and
  the report, or the exception.
\<close>

definition entities_and_log ::
  "error + (solution_manager \<times> message list) \<Rightarrow>
   error + ((int \<times> family) list \<times> (int \<times> workshop_day) list \<times> message list)" where
  "entities_and_log r = map_sum id (\<lambda>(s, report). (families s, days s, report)) r"

text \<open>
  A repository of families as \<open>load_data\<close> leaves it: the keys are pairwise
  distinct, every family is stored under its own identifier and has ten
  preferences.
\<close>

definition well_keyed :: "(int \<times> family) list \<Rightarrow> bool" where
  "well_keyed fs =
     (distinct (map fst fs) \<and>
      list_all (\<lambda>(k, fam). family_id fam = k \<and> length (preferences fam) = 10) fs)"

text \<open>
  The effect of the loop of \<open>_apply_results\<close> on a day, for a given raw assignment
  map: the references it appends and the occupancy it adds. Both depend on the
  families only through their keys and sizes.
\<close>

definition sizes :: "(int \<times> family) list \<Rightarrow> int \<rightharpoonup> int" where
  "sizes fs = map_option n_members \<circ> map_of fs"

definition added_members :: "(int \<rightharpoonup> int) \<Rightarrow> (int \<times> int) list \<Rightarrow> int \<Rightarrow> int list" where
  "added_members sz raw d =
     map fst (filter (\<lambda>(fam_id, day). day = d \<and> sz fam_id \<noteq> None) raw)"

definition added_occupancy :: "(int \<rightharpoonup> int) \<Rightarrow> (int \<times> int) list \<Rightarrow> int \<Rightarrow> int" where
  "added_occupancy sz raw d =
     (\<Sum>(fam_id, day)\<leftarrow>filter (\<lambda>(fam_id, day). day = d) raw.
        case sz fam_id of None \<Rightarrow> 0 | Some n \<Rightarrow> n)"

definition register :: "int list \<Rightarrow> int \<Rightarrow> workshop_day \<Rightarrow> workshop_day" where
  "register refs n wd =
     wd\<lparr>assigned_families := assigned_families wd @ refs,
        current_occupancy := current_occupancy wd + n\<rparr>"

text \<open>
  The effect of one pair of the raw assignment map on the repository of families.
\<close>

definition assign_step :: "int \<times> int \<Rightarrow> (int \<times> family) list \<Rightarrow> (int \<times> family) list" where
  "assign_step p fs =
     (case map_of fs (fst p) of
        None \<Rightarrow> fs
      | Some fam0 \<Rightarrow> AList.update (fst p) (assign_to fam0 (snd p)) fs)"

section \<open>Scenarios\<close>

text \<open>
  Scenario A: two families of 150 members that both put day 5 first, over the days
  5, 6 and 7; nobody requests day 7. The valuation assigns both families to day 5 and
  opens that day only; the solver of the scenario returns it as an optimal solution.
\<close>

definition scenario_A_families :: "family list" where
  "scenario_A_families = [Family 1 150 [5, 6], Family 2 150 [5]]"

definition scenario_A_days :: "int list" where
  "scenario_A_days = [5, 6, 7]"

definition scenario_A_valuation :: valuation where
  "scenario_A_valuation =
     (\<lambda>y. case y of X fam_id day \<Rightarrow> if day = 5 then 1 else 0
                  | Z day \<Rightarrow> if day = 5 then 1 else 0)"

definition scenario_A_manager :: solution_manager where
  "scenario_A_manager =
     \<lparr>families = [(1, Family 1 150 [5, 6]), (2, Family 2 150 [5])],
      days = [(5, WorkshopDay 5), (6, WorkshopDay 6), (7, WorkshopDay 7)],
      solver_engine = SantaSolver\<rparr>"

definition scenario_A_optimizer :: external_solver where
  "scenario_A_optimizer =
     (\<lambda>m opts. Returned \<lparr>termination_condition = optimal\<rparr>
                 (\<lambda>p. if p = (1, 5) \<or> p = (2, 5) then Some 1 else Some 0))"

text \<open>
  An orchestrator that holds family 1 only, with the solved model of scenario A in
  its solver: the extractor returns a pair for family 2, which the repository does
  not hold.
\<close>

definition stale_engine_manager :: solution_manager where
  "stale_engine_manager =
     \<lparr>families = [(1, Family 1 150 [5, 6])],
      days = [(5, WorkshopDay 5), (6, WorkshopDay 6), (7, WorkshopDay 7)],
      solver_engine =
        fst (projr (SantaSolver_solve scenario_A_optimizer SantaSolver
                      scenario_A_families scenario_A_days))\<rparr>"

text \<open>
  Solvers that raise, that report infeasibility, and that stop at the time limit
  with the values of scenario A.
\<close>

definition raising_optimizer :: external_solver where
  "raising_optimizer = (\<lambda>m opts. Raised)"

definition infeasible_optimizer :: external_solver where
  "infeasible_optimizer =
     (\<lambda>m opts. Returned \<lparr>termination_condition = infeasible\<rparr> (\<lambda>p. None))"

definition time_limited_optimizer :: external_solver where
  "time_limited_optimizer =
     (\<lambda>m opts. Returned \<lparr>termination_condition = maxTimeLimit\<rparr>
                 (\<lambda>p. if p = (1, 5) \<or> p = (2, 5) then Some 1 else Some 0))"

text \<open>
  Two families with ten preferences, one of them assigned to its preference of
  rank 2.
\<close>

definition ten_preference_families :: "family list" where
  "ten_preference_families =
     [Family 1 4 [1, 2, 3, 4, 5, 6, 7, 8, 9, 10],
      Family 2 3 [10, 9, 8, 7, 6, 5, 4, 3, 2, 1]]"

definition ten_preference_valuation :: valuation where
  "ten_preference_valuation =
     (\<lambda>y. case y of X fam_id day \<Rightarrow> if fam_id = 1 \<and> day = 3 then 1 else 0 | Z day \<Rightarrow> 0)"

text \<open>
  A solved model of one family that lists the days 5 and 7, in which both variables
  of the family have the value 1.
\<close>

definition double_selection_solver :: santa_solver where
  "double_selection_solver =
     \<lparr>model = Some \<lparr>Assignments = [(1, 5), (1, 7)], Days = [5, 7], Families = [1],
                    Obj = Plus (Plus (Num 0) (Times (V (X 1 5)) (Num 100)))
                               (Times (V (X 1 7)) (Num 90)),
                    Obj_sense = maximize,
                    OneDay = [(1, LE (Plus (Plus (Num 0) (V (X 1 5))) (V (X 1 7))) (Num 1))],
                    MinOpen = [(5, GE (Plus (Num 0) (Times (V (X 1 5)) (Num 150)))
                                      (Times (Num 100) (V (Z 5)))),
                               (7, GE (Plus (Num 0) (Times (V (X 1 7)) (Num 150)))
                                      (Times (Num 100) (V (Z 7))))],
                    MaxOpen = [(5, LE (Plus (Num 0) (Times (V (X 1 5)) (Num 150)))
                                      (Times (Num 300) (V (Z 5)))),
                               (7, LE (Plus (Num 0) (Times (V (X 1 7)) (Num 150)))
                                      (Times (Num 300) (V (Z 7))))],
                    x_value = (\<lambda>p. Some 1)\<rparr>,
      results = Some \<lparr>termination_condition = optimal\<rparr>\<rparr>"

section \<open>Facts about the builder\<close>

lemma set_ordered_set: "set (ordered_set xs) = set xs"
  by (simp add: ordered_set_def)

lemma distinct_ordered_set: "distinct (ordered_set xs)"
  by (simp add: ordered_set_def)

lemma set_valid_assignments:
  "set (valid_assignments fams) =
     {(family_id f, d) | f d. f \<in> set fams \<and> d \<in> set (preferences f)}"
  by (auto simp: valid_assignments_def)

lemma build_model_sets:
  assumes "build_model fams days_range = Inr m"
  shows "Assignments m = ordered_set (valid_assignments fams)"
    and "Days m = ordered_set days_range"
    and "Families m = ordered_set (map family_id fams)"
  using assms
  by (auto simp: build_model_def Let_def split: sum.splits)

lemma constraint_block_fst:
  "constraint_block rule idx = Inr cs \<Longrightarrow> map fst cs = idx"
  by (induction idx arbitrary: cs) (auto split: sum.splits)

lemma constraint_block_rule:
  "constraint_block rule idx = Inr cs \<Longrightarrow> (i, c) \<in> set cs \<Longrightarrow> rule i = Inr c"
  by (induction idx arbitrary: cs) (auto split: sum.splits)

lemma constraint_block_mem:
  "constraint_block rule idx = Inr cs \<Longrightarrow> i \<in> set idx \<Longrightarrow> \<exists>c. rule i = Inr c \<and> (i, c) \<in> set cs"
  by (induction idx arbitrary: cs) (auto split: sum.splits)

lemma set_drop_skipped: "set (drop_skipped cs) = {(i, c). (i, Some c) \<in> set cs}"
  by (auto simp: drop_skipped_def split: option.splits)

lemma eval_foldl_Plus: "eval v (foldl Plus a es) = eval v a + sum_list (map (eval v) es)"
  by (induction es arbitrary: a) auto

lemma eval_py_sum: "eval v (py_sum es) = sum_list (map (eval v) es)"
  by (simp add: py_sum_def eval_foldl_Plus)

lemma eval_occupancy_expr:
  "eval v (occupancy_expr fs d) = (\<Sum>f\<leftarrow>fs. v (X (family_id f) d) * n_members f)"
  by (simp add: occupancy_expr_def eval_py_sum comp_def)

lemma demand_days_Inr:
  "demand_days f dm ds = Inr dm' \<Longrightarrow>
     dm' d = map_option (\<lambda>fs. fs @ map (\<lambda>_. f) (filter (\<lambda>d'. d' = d) ds)) (dm d)"
proof (induction ds arbitrary: dm)
  case Nil
  then show ?case by (simp add: option.map_ident)
next
  case (Cons a ds)
  then show ?case
    by (cases "dm a") (auto simp: option.map_comp comp_def)
qed

lemma demand_families_Inr:
  "demand_families dm fams = Inr dm' \<Longrightarrow>
     dm' d = map_option (\<lambda>fs. fs @ demand_list fams d) (dm d)"
proof (induction fams arbitrary: dm)
  case Nil
  then show ?case by (simp add: demand_list_def option.map_ident)
next
  case (Cons f fams)
  from Cons.prems obtain dm1 where
    1: "demand_days f dm (preferences f) = Inr dm1" and 2: "demand_families dm1 fams = Inr dm'"
    by (auto split: sum.splits)
  show ?case
    using Cons.IH[OF 2] demand_days_Inr[OF 1, of d]
    by (cases "dm d") (auto simp: demand_list_def)
qed

lemma map_of_empty_lists:
  "map_of (map (\<lambda>d. (d, [])) ds) d = (if d \<in> set ds then Some [] else None)"
  by (induction ds) auto

lemma day_demand_map_Inr:
  "day_demand_map fams days_range = Inr dm \<Longrightarrow>
     dm d = (if d \<in> set days_range then Some (demand_list fams d) else None)"
  unfolding day_demand_map_def
  by (drule demand_families_Inr[where d = d]) (simp add: map_of_empty_lists)

lemma demand_list_empty_iff:
  "demand_list fams d = [] \<longleftrightarrow> (\<forall>f \<in> set fams. d \<notin> set (preferences f))"
  by (auto simp: demand_list_def filter_empty_conv)

lemma build_model_Inr:
  assumes "build_model fams days_range = Inr m"
  obtains obj c1 dm c2 c3 where
    "objective_rule fams = Inr obj"
    "constraint_block (one_day_rule fams) (ordered_set (map family_id fams)) = Inr c1"
    "day_demand_map fams days_range = Inr dm"
    "constraint_block (min_opening_rule dm) (ordered_set days_range) = Inr c2"
    "constraint_block (max_opening_rule dm) (ordered_set days_range) = Inr c3"
    "Obj m = obj" "Obj_sense m = maximize"
    "OneDay m = c1" "MinOpen m = c2" "MaxOpen m = drop_skipped c3"
  using assms
  by (auto simp: build_model_def Let_def split: sum.splits)

lemma MinOpen_mem:
  assumes b: "build_model fams days_range = Inr m" and d: "d \<in> set days_range"
  shows "(d, if demand_list fams d = []
             then GE (Num 0) (Times (Num 100) (V (Z d)))
             else GE (occupancy_expr (demand_list fams d) d) (Times (Num 100) (V (Z d))))
         \<in> set (MinOpen m)"
proof -
  from b obtain dm c2 where dm: "day_demand_map fams days_range = Inr dm"
    and c2: "constraint_block (min_opening_rule dm) (ordered_set days_range) = Inr c2"
    and m: "MinOpen m = c2"
    by (rule build_model_Inr)
  from d have "d \<in> set (ordered_set days_range)" by (simp add: set_ordered_set)
  from constraint_block_mem[OF c2 this] obtain c where
    c: "min_opening_rule dm d = Inr c" "(d, c) \<in> set c2" by blast
  from day_demand_map_Inr[OF dm, of d] d have "dm d = Some (demand_list fams d)" by simp
  with c m show ?thesis by (auto simp: min_opening_rule_def split: if_splits)
qed

lemma MaxOpen_mem:
  assumes b: "build_model fams days_range = Inr m" and d: "d \<in> set days_range"
    and ne: "demand_list fams d \<noteq> []"
  shows "(d, LE (occupancy_expr (demand_list fams d) d) (Times (Num 300) (V (Z d))))
         \<in> set (MaxOpen m)"
proof -
  from b obtain dm c3 where dm: "day_demand_map fams days_range = Inr dm"
    and c3: "constraint_block (max_opening_rule dm) (ordered_set days_range) = Inr c3"
    and m: "MaxOpen m = drop_skipped c3"
    by (rule build_model_Inr)
  from d have "d \<in> set (ordered_set days_range)" by (simp add: set_ordered_set)
  from constraint_block_mem[OF c3 this] obtain c where
    c: "max_opening_rule dm d = Inr c" "(d, c) \<in> set c3" by blast
  from day_demand_map_Inr[OF dm, of d] d have "dm d = Some (demand_list fams d)" by simp
  with c m ne show ?thesis by (auto simp: max_opening_rule_def set_drop_skipped split: if_splits)
qed

lemma find_distinct_id:
  "distinct (map family_id fams) \<Longrightarrow> f \<in> set fams \<Longrightarrow>
     find (\<lambda>g. family_id g = family_id f) fams = Some f"
  by (induction fams) (auto simp: image_iff)

lemma OneDay_mem:
  assumes b: "build_model fams days_range = Inr m" and f: "f \<in> set fams"
    and dist: "distinct (map family_id fams)"
  shows "(family_id f, LE (py_sum (map (\<lambda>d. V (X (family_id f) d)) (preferences f))) (Num 1))
         \<in> set (OneDay m)"
proof -
  from b obtain c1 where
    c1: "constraint_block (one_day_rule fams) (ordered_set (map family_id fams)) = Inr c1"
    and m: "OneDay m = c1"
    by (rule build_model_Inr)
  from f have "family_id f \<in> set (ordered_set (map family_id fams))"
    by (simp add: set_ordered_set)
  from constraint_block_mem[OF c1 this] obtain c where
    c: "one_day_rule fams (family_id f) = Inr c" "(family_id f, c) \<in> set c1" by blast
  with m find_distinct_id[OF dist f] show ?thesis
    by (auto simp: one_day_rule_def split: if_splits)
qed

lemma feasible_x_binary:
  assumes b: "build_model fams days_range = Inr m" and fe: "is_feasible m v"
    and f: "f \<in> set fams" and d: "d \<in> set (preferences f)"
  shows "v (X (family_id f) d) = 0 \<or> v (X (family_id f) d) = 1"
proof -
  have "(family_id f, d) \<in> set (Assignments m)"
    using build_model_sets(1)[OF b] f d by (auto simp: set_ordered_set set_valid_assignments)
  then have "X (family_id f) d \<in> set (x_vars m)" by (force simp: x_vars_def)
  with fe show ?thesis by (auto simp: is_feasible_def list_all_iff binary_def)
qed

lemma feasible_z_binary:
  assumes b: "build_model fams days_range = Inr m" and fe: "is_feasible m v"
    and d: "d \<in> set days_range"
  shows "v (Z d) = 0 \<or> v (Z d) = 1"
proof -
  have "Z d \<in> set (z_vars m)"
    using build_model_sets(2)[OF b] d by (simp add: z_vars_def set_ordered_set)
  with fe show ?thesis by (auto simp: is_feasible_def list_all_iff binary_def)
qed

lemma feasible_OneDay:
  assumes b: "build_model fams days_range = Inr m" and fe: "is_feasible m v"
    and f: "f \<in> set fams" and dist: "distinct (map family_id fams)"
  shows "(\<Sum>d\<leftarrow>preferences f. v (X (family_id f) d)) \<le> 1"
proof -
  from OneDay_mem[OF b f dist] fe
  have "sat v (LE (py_sum (map (\<lambda>d. V (X (family_id f) d)) (preferences f))) (Num 1))"
    by (auto simp: is_feasible_def list_all_iff)
  then show ?thesis by (simp add: eval_py_sum comp_def)
qed

section \<open>Scenario A\<close>

text \<open>
  The model of scenario A is built without an exception, and its valuation is
  feasible.
\<close>

lemmas builder_defs =
  build_model_def Let_def ordered_set_def valid_assignments_def Family_def objective_rule_def
  HAPPINESS_POINTS_def one_day_rule_def day_demand_map_def min_opening_rule_def
  max_opening_rule_def occupancy_expr_def py_sum_def drop_skipped_def

lemma scenario_A_build:
  "build_model scenario_A_families scenario_A_days =
     Inr (projr (build_model scenario_A_families scenario_A_days))"
  by (simp add: scenario_A_families_def scenario_A_days_def builder_defs)

lemma scenario_A_feasible:
  "is_feasible (projr (build_model scenario_A_families scenario_A_days)) scenario_A_valuation"
  by (simp add: scenario_A_families_def scenario_A_days_def builder_defs
       is_feasible_def x_vars_def z_vars_def binary_def scenario_A_valuation_def)

lemma scenario_A_distinct: "distinct (map family_id scenario_A_families)"
  by (simp add: scenario_A_families_def Family_def)

lemma scenario_A_manager_families: "map snd (families scenario_A_manager) = scenario_A_families"
  by (simp add: scenario_A_manager_def scenario_A_families_def)

lemma scenario_A_manager_days: "map fst (days scenario_A_manager) = scenario_A_days"
  by (simp add: scenario_A_manager_def scenario_A_days_def)

section \<open>What loading the data establishes\<close>

text \<open>
  The families that \<open>load_data\<close> puts into an empty repository have pairwise distinct
  identifiers, since the repository is keyed by them, and ten preferences each.
\<close>

lemma well_keyed_load_row: "well_keyed fs \<Longrightarrow> well_keyed (load_row row fs)"
proof -
  assume w: "well_keyed fs"
  let ?fam = "Family (familyID row) (nrMembers row)
                [day0 row, day1 row, day2 row, day3 row, day4 row,
                 day5 row, day6 row, day7 row, day8 row, day9 row]"
  have d: "distinct (map fst (AList.update (familyID row) ?fam fs))"
    using w by (simp add: well_keyed_def distinct_update)
  have "family_id fam = k \<and> length (preferences fam) = 10"
    if "(k, fam) \<in> set (AList.update (familyID row) ?fam fs)" for k fam
  proof -
    from that d have "map_of (AList.update (familyID row) ?fam fs) k = Some fam" by simp
    then have "(k = familyID row \<and> fam = ?fam) \<or> map_of fs k = Some fam"
      by (auto simp: update_conv' split: if_splits)
    then show ?thesis
    proof
      assume "k = familyID row \<and> fam = ?fam"
      then show ?thesis by (simp add: Family_def)
    next
      assume "map_of fs k = Some fam"
      then have "(k, fam) \<in> set fs" by (rule map_of_SomeD)
      with w show ?thesis by (auto simp: well_keyed_def list_all_iff)
    qed
  qed
  with d show ?thesis
    by (auto simp: well_keyed_def load_row_def Let_def list_all_iff)
qed

lemma well_keyed_fold: "well_keyed fs \<Longrightarrow> well_keyed (fold load_row rows fs)"
  by (induction rows arbitrary: fs) (simp_all add: well_keyed_load_row)

lemma well_keyed_ids: "well_keyed fs \<Longrightarrow> map family_id (map snd fs) = map fst fs"
  by (induction fs) (auto simp: well_keyed_def)

lemma load_data_families:
  "distinct (map family_id (map snd (families (load_data SolutionManager rows)))) \<and>
   list_all (\<lambda>f. length (preferences f) = 10) (map snd (families (load_data SolutionManager rows)))"
proof -
  have "well_keyed []" by (simp add: well_keyed_def)
  then have w: "well_keyed (families (load_data SolutionManager rows))"
    by (simp add: load_data_def SolutionManager_def well_keyed_fold)
  from w have "distinct (map fst (families (load_data SolutionManager rows)))"
    by (simp add: well_keyed_def)
  then have 1: "distinct (map family_id (map snd (families (load_data SolutionManager rows))))"
    by (simp only: well_keyed_ids[OF w])
  from w have 2: "list_all (\<lambda>f. length (preferences f) = 10)
                    (map snd (families (load_data SolutionManager rows)))"
    by (auto simp: well_keyed_def list_all_iff)
  from 1 2 show ?thesis ..
qed

section \<open>The variable space\<close>

text \<open>
  Claim C5. The index set of the decision variables holds exactly the pairs
  (family identifier, day) in which the day occurs in the preference list of that
  family, each pair once, and every \<open>x\<close> variable is indexed by such a pair: the space
  is not the product of all families with all days. Separately there is one
  day-open variable \<open>z\<close> for every day of the range. Both kinds of variable are
  binary: a feasible valuation gives each of them 0 or 1.
\<close>

theorem sparse_variable_space:
  assumes b: "build_model fams days_range = Inr m"
  shows "set (Assignments m) =
           {(family_id f, d) | f d. f \<in> set fams \<and> d \<in> set (preferences f)} \<and>
         distinct (Assignments m) \<and>
         x_vars m = map (\<lambda>(fam_id, day). X fam_id day) (Assignments m) \<and>
         set (Days m) = set days_range \<and> distinct (Days m) \<and>
         z_vars m = map Z (Days m) \<and>
         (\<forall>v. is_feasible m v \<longrightarrow>
            list_all (binary v) (x_vars m) \<and> list_all (binary v) (z_vars m))"
  using build_model_sets[OF b]
  by (simp add: set_ordered_set distinct_ordered_set set_valid_assignments x_vars_def z_vars_def
        is_feasible_def)

text \<open>
  In the scenario the pair (2, 6) of a known family and a known day is no index,
  since family 2 does not list day 6.
\<close>

theorem sparse_variable_space_witness:
  "build_model scenario_A_families scenario_A_days =
     Inr (projr (build_model scenario_A_families scenario_A_days)) \<and>
   set (Assignments (projr (build_model scenario_A_families scenario_A_days)))
     = {(1, 5), (1, 6), (2, 5)} \<and>
   (2, 6) \<notin> set (Assignments (projr (build_model scenario_A_families scenario_A_days))) \<and>
   set (Days (projr (build_model scenario_A_families scenario_A_days))) = {5, 6, 7}"
proof -
  have "{(family_id f, d) | f d. f \<in> set scenario_A_families \<and> d \<in> set (preferences f)}
        = {(1, 5), (1, 6), (2, 5)}"
    unfolding set_valid_assignments[symmetric]
    by (auto simp: valid_assignments_def scenario_A_families_def Family_def)
  with sparse_variable_space[OF scenario_A_build] scenario_A_build
  show ?thesis by (simp add: scenario_A_days_def)
qed

section \<open>At most one day for each family\<close>

lemma sum_list_remdups_le:
  "(\<And>d. d \<in> set ds \<Longrightarrow> 0 \<le> (g d :: int)) \<Longrightarrow>
     sum_list (map g (remdups ds)) \<le> sum_list (map g ds)"
  by (induction ds) (auto simp: add_increasing)

lemma card_ones_le_sum_list:
  assumes bin: "\<And>d. d \<in> set ds \<Longrightarrow> g d = 0 \<or> g d = (1::int)"
  shows "int (card {d \<in> set ds. g d = 1}) \<le> sum_list (map g ds)"
proof -
  have "(\<Sum>d\<in>set ds. if g d = 1 then 1 else (0::int)) = (\<Sum>d\<in>{d \<in> set ds. g d = 1}. 1)"
    by (rule sum.inter_filter[symmetric]) simp
  then have "int (card {d \<in> set ds. g d = 1}) = (\<Sum>d\<in>set ds. if g d = 1 then 1 else 0)"
    by simp
  also have "\<dots> = (\<Sum>d\<in>set ds. g d)"
    by (rule sum.cong) (use bin in auto)
  also have "\<dots> = sum_list (map g (remdups ds))"
    by (simp add: sum_list_distinct_conv_sum_set)
  also have "\<dots> \<le> sum_list (map g ds)"
    by (rule sum_list_remdups_le) (use bin in fastforce)
  finally show ?thesis .
qed

lemma zero_valuation_apply: "zero_valuation y = 0"
  by (simp add: zero_valuation_def)

lemma eval_zero_py_sum_vars: "eval zero_valuation (py_sum (map (\<lambda>d. V (h d)) ds)) = 0"
  by (simp add: eval_py_sum comp_def zero_valuation_apply)

lemma eval_zero_occupancy_expr: "eval zero_valuation (occupancy_expr fs d) = 0"
  by (simp add: eval_occupancy_expr zero_valuation_apply)

lemma feasible_zero_valuation:
  assumes b: "build_model fams days_range = Inr m"
  shows "is_feasible m zero_valuation"
proof -
  from b obtain c1 dm c2 c3 where
    c1: "constraint_block (one_day_rule fams) (ordered_set (map family_id fams)) = Inr c1"
    and c2: "constraint_block (min_opening_rule dm) (ordered_set days_range) = Inr c2"
    and c3: "constraint_block (max_opening_rule dm) (ordered_set days_range) = Inr c3"
    and m: "OneDay m = c1" "MinOpen m = c2" "MaxOpen m = drop_skipped c3"
    by (rule build_model_Inr)
  have 1: "sat zero_valuation c" if "(i, c) \<in> set c1" for i c
    using constraint_block_rule[OF c1 that]
    by (auto simp: one_day_rule_def eval_zero_py_sum_vars split: option.splits if_splits)
  have 2: "sat zero_valuation c" if "(d, c) \<in> set c2" for d c
    using constraint_block_rule[OF c2 that]
    by (auto simp: min_opening_rule_def eval_zero_occupancy_expr zero_valuation_apply
             split: option.splits if_splits)
  have 3: "sat zero_valuation c" if "(d, Some c) \<in> set c3" for d c
    using constraint_block_rule[OF c3 that]
    by (auto simp: max_opening_rule_def eval_zero_occupancy_expr zero_valuation_apply
             split: option.splits if_splits)
  show ?thesis
    unfolding is_feasible_def list_all_iff m
    using 1 2 3 by (auto simp: binary_def zero_valuation_apply set_drop_skipped)
qed

text \<open>
  Claim C2. For each family, the constraint that \<open>one_day_rule\<close> generates bounds the
  sum of the family's variables over its own preference list by 1. So in every
  feasible valuation the family has at most one day, and it may have none: the
  valuation that is 0 everywhere is feasible. The families reach the solver from a
  dictionary keyed by their identifier, hence with pairwise distinct identifiers.
\<close>

theorem at_most_one_day:
  assumes b: "build_model fams days_range = Inr m"
    and dist: "distinct (map family_id fams)"
    and f: "f \<in> set fams"
  shows "(family_id f, LE (py_sum (map (\<lambda>d. V (X (family_id f) d)) (preferences f))) (Num 1))
           \<in> set (OneDay m) \<and>
         (\<forall>v. is_feasible m v \<longrightarrow>
            card {d \<in> set (preferences f). v (X (family_id f) d) = 1} \<le> 1) \<and>
         (\<exists>v. is_feasible m v \<and> {d \<in> set (preferences f). v (X (family_id f) d) = 1} = {})"
proof (intro conjI allI impI)
  show "(family_id f, LE (py_sum (map (\<lambda>d. V (X (family_id f) d)) (preferences f))) (Num 1))
           \<in> set (OneDay m)"
    by (rule OneDay_mem[OF b f dist])
next
  fix v assume fe: "is_feasible m v"
  have "int (card {d \<in> set (preferences f). v (X (family_id f) d) = 1})
          \<le> (\<Sum>d\<leftarrow>preferences f. v (X (family_id f) d))"
    by (rule card_ones_le_sum_list) (rule feasible_x_binary[OF b fe f])
  with feasible_OneDay[OF b fe f dist]
  show "card {d \<in> set (preferences f). v (X (family_id f) d) = 1} \<le> 1" by simp
next
  have "{d \<in> set (preferences f). zero_valuation (X (family_id f) d) = 1} = {}"
    by (simp add: zero_valuation_apply)
  with feasible_zero_valuation[OF b]
  show "\<exists>v. is_feasible m v \<and> {d \<in> set (preferences f). v (X (family_id f) d) = 1} = {}"
    by blast
qed

theorem at_most_one_day_witness:
  "build_model scenario_A_families scenario_A_days =
     Inr (projr (build_model scenario_A_families scenario_A_days)) \<and>
   distinct (map family_id scenario_A_families) \<and>
   Family 1 150 [5, 6] \<in> set scenario_A_families \<and>
   (1, LE (py_sum [V (X 1 5), V (X 1 6)]) (Num 1))
     \<in> set (OneDay (projr (build_model scenario_A_families scenario_A_days))) \<and>
   is_feasible (projr (build_model scenario_A_families scenario_A_days)) scenario_A_valuation \<and>
   card {d \<in> {5, 6}. scenario_A_valuation (X 1 d) = 1} \<le> 1"
proof -
  have f: "Family 1 150 [5, 6] \<in> set scenario_A_families"
    by (simp add: scenario_A_families_def)
  from at_most_one_day[OF scenario_A_build scenario_A_distinct f]
    scenario_A_build scenario_A_distinct f scenario_A_feasible
  show ?thesis by (simp add: Family_def)
qed

section \<open>The semicontinuous capacity rule\<close>

lemma sum_list_demand_list:
  "(\<Sum>f\<leftarrow>demand_list fams d. g f) =
     (\<Sum>f\<leftarrow>fams. int (length (filter (\<lambda>d'. d' = d) (preferences f))) * g f)"
  by (induction fams) (auto simp: demand_list_def sum_list_triv comp_def)

lemma count_le_sum_list:
  "(\<And>d'. d' \<in> set ds \<Longrightarrow> 0 \<le> (g d' :: int)) \<Longrightarrow>
     int (length (filter (\<lambda>d'. d' = d) ds)) * g d \<le> sum_list (map g ds)"
proof (induction ds)
  case Nil
  then show ?case by simp
next
  case (Cons a ds)
  have ih: "int (length (filter (\<lambda>d'. d' = d) ds)) * g d \<le> sum_list (map g ds)"
    using Cons by simp
  have a: "0 \<le> g a" using Cons.prems by simp
  show ?case
  proof (cases "a = d")
    case True
    with ih show ?thesis by (simp add: algebra_simps)
  next
    case False
    with ih a show ?thesis by simp
  qed
qed

lemma family_share:
  assumes b: "build_model fams days_range = Inr m" and fe: "is_feasible m v"
    and f: "f \<in> set fams" and dist: "distinct (map family_id fams)"
  shows "int (length (filter (\<lambda>d'. d' = d) (preferences f))) * (v (X (family_id f) d) * n_members f)
         = (if d \<in> set (preferences f) \<and> v (X (family_id f) d) = 1 then n_members f else 0)"
proof (cases "d \<in> set (preferences f)")
  case False
  then have "filter (\<lambda>d'. d' = d) (preferences f) = []" by (auto simp: filter_empty_conv)
  with False show ?thesis by simp
next
  case True
  from feasible_x_binary[OF b fe f True] show ?thesis
  proof
    assume "v (X (family_id f) d) = 0"
    then show ?thesis by simp
  next
    assume one: "v (X (family_id f) d) = 1"
    have nonneg: "\<And>d'. d' \<in> set (preferences f) \<Longrightarrow> 0 \<le> v (X (family_id f) d')"
      using feasible_x_binary[OF b fe f] by fastforce
    have "int (length (filter (\<lambda>d'. d' = d) (preferences f))) * v (X (family_id f) d)
            \<le> (\<Sum>d'\<leftarrow>preferences f. v (X (family_id f) d'))"
      by (rule count_le_sum_list) (rule nonneg)
    with one feasible_OneDay[OF b fe f dist]
    have "length (filter (\<lambda>d'. d' = d) (preferences f)) \<le> 1" by simp
    moreover from True have "filter (\<lambda>d'. d' = d) (preferences f) \<noteq> []"
      by (auto simp: filter_empty_conv)
    then have "length (filter (\<lambda>d'. d' = d) (preferences f)) \<ge> 1"
      by (cases "filter (\<lambda>d'. d' = d) (preferences f)") auto
    ultimately have "length (filter (\<lambda>d'. d' = d) (preferences f)) = 1" by simp
    with one True show ?thesis by simp
  qed
qed

lemma occupancy_expr_is_day_occupancy:
  assumes b: "build_model fams days_range = Inr m" and fe: "is_feasible m v"
    and dist: "distinct (map family_id fams)"
  shows "eval v (occupancy_expr (demand_list fams d) d) = day_occupancy fams v d"
proof -
  have "eval v (occupancy_expr (demand_list fams d) d) =
        (\<Sum>f\<leftarrow>fams. int (length (filter (\<lambda>d'. d' = d) (preferences f)))
                           * (v (X (family_id f) d) * n_members f))"
    by (simp add: eval_occupancy_expr sum_list_demand_list)
  also have "\<dots> = (\<Sum>f\<leftarrow>fams.
                 if d \<in> set (preferences f) \<and> v (X (family_id f) d) = 1 then n_members f else 0)"
    by (rule arg_cong[where f = sum_list], rule map_cong[OF refl])
       (rule family_share[OF b fe _ dist])
  also have "\<dots> = day_occupancy fams v d"
    by (simp add: day_occupancy_def sum_list_map_filter')
  finally show ?thesis .
qed

lemma distinct_count_one:
  "distinct ds \<Longrightarrow> d \<in> set ds \<Longrightarrow> length (filter (\<lambda>d'. d' = d) ds) = 1"
  by (induction ds) (auto simp: filter_empty_conv)

lemma family_share_distinct:
  assumes b: "build_model fams days_range = Inr m"
    and bx: "list_all (binary v) (x_vars m)"
    and f: "f \<in> set fams" and dp: "distinct (preferences f)"
  shows "int (length (filter (\<lambda>d'. d' = d) (preferences f))) * (v (X (family_id f) d) * n_members f)
         = (if d \<in> set (preferences f) \<and> v (X (family_id f) d) = 1 then n_members f else 0)"
proof (cases "d \<in> set (preferences f)")
  case False
  then have "filter (\<lambda>d'. d' = d) (preferences f) = []" by (auto simp: filter_empty_conv)
  with False show ?thesis by simp
next
  case True
  have "(family_id f, d) \<in> set (Assignments m)"
    using build_model_sets(1)[OF b] f True by (auto simp: set_ordered_set set_valid_assignments)
  then have "X (family_id f) d \<in> set (x_vars m)" by (force simp: x_vars_def)
  with bx have x: "v (X (family_id f) d) = 0 \<or> v (X (family_id f) d) = 1"
    by (auto simp: list_all_iff binary_def)
  from dp True have "length (filter (\<lambda>d'. d' = d) (preferences f)) = 1"
    by (rule distinct_count_one)
  with x True show ?thesis by auto
qed

lemma day_occupancy_no_demand:
  "\<forall>f \<in> set fams. d \<notin> set (preferences f) \<Longrightarrow> day_occupancy fams v d = 0"
proof -
  assume "\<forall>f \<in> set fams. d \<notin> set (preferences f)"
  then have "filter (\<lambda>f. d \<in> set (preferences f) \<and> v (X (family_id f) d) = 1) fams = []"
    by (auto simp: filter_empty_conv)
  then show ?thesis by (simp add: day_occupancy_def)
qed

text \<open>
  Claim C1. For every day of the range and every feasible valuation of the model,
  the occupancy of the day (the members of the families whose variable for the day
  is 1) is 0 or lies between 100 and 300, both included. The identifiers of the
  families are pairwise distinct, as they are when the families come from the
  repository.
\<close>

theorem semicontinuous_occupancy:
  assumes b: "build_model fams days_range = Inr m"
    and dist: "distinct (map family_id fams)"
    and fe: "is_feasible m v"
    and d: "d \<in> set days_range"
  shows "day_occupancy fams v d = 0 \<or>
         (100 \<le> day_occupancy fams v d \<and> day_occupancy fams v d \<le> 300)"
proof (cases "demand_list fams d = []")
  case True
  then have "day_occupancy fams v d = 0"
    by (simp add: demand_list_empty_iff day_occupancy_no_demand)
  then show ?thesis ..
next
  case False
  from MinOpen_mem[OF b d] False fe
  have "sat v (GE (occupancy_expr (demand_list fams d) d) (Times (Num 100) (V (Z d))))"
    by (auto simp: is_feasible_def list_all_iff)
  then have lo: "100 * v (Z d) \<le> day_occupancy fams v d"
    using occupancy_expr_is_day_occupancy[OF b fe dist, of d] by simp
  from MaxOpen_mem[OF b d False] fe
  have "sat v (LE (occupancy_expr (demand_list fams d) d) (Times (Num 300) (V (Z d))))"
    by (auto simp: is_feasible_def list_all_iff)
  then have hi: "day_occupancy fams v d \<le> 300 * v (Z d)"
    using occupancy_expr_is_day_occupancy[OF b fe dist, of d] by simp
  from feasible_z_binary[OF b fe d] lo hi show ?thesis by auto
qed

theorem semicontinuous_occupancy_witness:
  "build_model scenario_A_families scenario_A_days =
     Inr (projr (build_model scenario_A_families scenario_A_days)) \<and>
   distinct (map family_id scenario_A_families) \<and>
   is_feasible (projr (build_model scenario_A_families scenario_A_days)) scenario_A_valuation \<and>
   5 \<in> set scenario_A_days \<and>
   day_occupancy scenario_A_families scenario_A_valuation 5 = 300 \<and>
   (day_occupancy scenario_A_families scenario_A_valuation 5 = 0 \<or>
    (100 \<le> day_occupancy scenario_A_families scenario_A_valuation 5 \<and>
     day_occupancy scenario_A_families scenario_A_valuation 5 \<le> 300))"
proof -
  have d: "5 \<in> set scenario_A_days" by (simp add: scenario_A_days_def)
  have occ: "day_occupancy scenario_A_families scenario_A_valuation 5 = 300"
    by (simp add: day_occupancy_def scenario_A_families_def Family_def scenario_A_valuation_def)
  from semicontinuous_occupancy[OF scenario_A_build scenario_A_distinct scenario_A_feasible d]
    scenario_A_build scenario_A_distinct scenario_A_feasible d occ
  show ?thesis by blast
qed

text \<open>
  When no preference list repeats a day, the two capacity constraints and the binary
  domains are enough, and the identifiers may repeat. (A day that a family lists
  twice is counted twice by the constraints; for such a day the constraint
  \<open>OneDay\<close> forces the variable to 0, which is why the result above needs no such
  condition.) The bounds are the constants of \<open>WorkshopDay\<close>.
\<close>

lemma capacity_band_with_distinct_preferences:
  assumes b: "build_model fams days_range = Inr m"
    and dp: "\<forall>f \<in> set fams. distinct (preferences f)"
    and bx: "list_all (binary v) (x_vars m)"
    and bz: "list_all (binary v) (z_vars m)"
    and mn: "list_all (\<lambda>(d, c). sat v c) (MinOpen m)"
    and mx: "list_all (\<lambda>(d, c). sat v c) (MaxOpen m)"
    and d: "d \<in> set days_range"
  shows "day_occupancy fams v d = 0 \<or>
         (100 \<le> day_occupancy fams v d \<and> day_occupancy fams v d \<le> 300)"
proof (cases "demand_list fams d = []")
  case True
  then have "day_occupancy fams v d = 0"
    by (simp add: demand_list_empty_iff day_occupancy_no_demand)
  then show ?thesis ..
next
  case False
  have "eval v (occupancy_expr (demand_list fams d) d) =
        (\<Sum>f\<leftarrow>fams. int (length (filter (\<lambda>d'. d' = d) (preferences f)))
                           * (v (X (family_id f) d) * n_members f))"
    by (simp add: eval_occupancy_expr sum_list_demand_list)
  also have "\<dots> = (\<Sum>f\<leftarrow>fams.
                 if d \<in> set (preferences f) \<and> v (X (family_id f) d) = 1 then n_members f else 0)"
  proof (rule arg_cong[where f = sum_list], rule map_cong[OF refl])
    fix f assume f: "f \<in> set fams"
    with dp have "distinct (preferences f)" by simp
    from family_share_distinct[OF b bx f this]
    show "int (length (filter (\<lambda>d'. d' = d) (preferences f))) * (v (X (family_id f) d) * n_members f)
         = (if d \<in> set (preferences f) \<and> v (X (family_id f) d) = 1 then n_members f else 0)" .
  qed
  also have "\<dots> = day_occupancy fams v d"
    by (simp add: day_occupancy_def sum_list_map_filter')
  finally have eq: "eval v (occupancy_expr (demand_list fams d) d) = day_occupancy fams v d" .
  from MinOpen_mem[OF b d] False mn
  have "sat v (GE (occupancy_expr (demand_list fams d) d) (Times (Num 100) (V (Z d))))"
    by (auto simp: list_all_iff)
  then have lo: "100 * v (Z d) \<le> day_occupancy fams v d" using eq by simp
  from MaxOpen_mem[OF b d False] mx
  have "sat v (LE (occupancy_expr (demand_list fams d) d) (Times (Num 300) (V (Z d))))"
    by (auto simp: list_all_iff)
  then have hi: "day_occupancy fams v d \<le> 300 * v (Z d)" using eq by simp
  have "Z d \<in> set (z_vars m)"
    using build_model_sets(2)[OF b] d by (simp add: z_vars_def set_ordered_set)
  with bz have "v (Z d) = 0 \<or> v (Z d) = 1" by (auto simp: list_all_iff binary_def)
  with lo hi show ?thesis by auto
qed

lemma capacity_constants: "MIN_CAPACITY = 100 \<and> MAX_CAPACITY = 300"
  by (simp add: MIN_CAPACITY_def MAX_CAPACITY_def)

section \<open>Days that nobody requests\<close>

text \<open>
  Claim C3. For a day of the range that occurs in no preference list, the
  minimum-opening constraint is \<open>0 >= 100 * z[d]\<close>; in every feasible valuation the
  day is closed and its occupancy is 0.
\<close>

theorem unrequested_day_closed:
  assumes b: "build_model fams days_range = Inr m"
    and d: "d \<in> set days_range"
    and none: "\<forall>f \<in> set fams. d \<notin> set (preferences f)"
  shows "(d, GE (Num 0) (Times (Num 100) (V (Z d)))) \<in> set (MinOpen m) \<and>
         (\<forall>v. is_feasible m v \<longrightarrow> v (Z d) = 0 \<and> day_occupancy fams v d = 0)"
proof -
  from none have e: "demand_list fams d = []" by (simp add: demand_list_empty_iff)
  with MinOpen_mem[OF b d] have mem: "(d, GE (Num 0) (Times (Num 100) (V (Z d)))) \<in> set (MinOpen m)"
    by simp
  have "v (Z d) = 0 \<and> day_occupancy fams v d = 0" if fe: "is_feasible m v" for v
  proof -
    from mem fe have "sat v (GE (Num 0) (Times (Num 100) (V (Z d))))"
      by (auto simp: is_feasible_def list_all_iff)
    then have "100 * v (Z d) \<le> 0" by simp
    with feasible_z_binary[OF b fe d] have "v (Z d) = 0" by auto
    with day_occupancy_no_demand[OF none] show ?thesis by simp
  qed
  with mem show ?thesis by blast
qed

theorem unrequested_day_closed_witness:
  "build_model scenario_A_families scenario_A_days =
     Inr (projr (build_model scenario_A_families scenario_A_days)) \<and>
   7 \<in> set scenario_A_days \<and>
   list_all (\<lambda>f. 7 \<notin> set (preferences f)) scenario_A_families \<and>
   (7, GE (Num 0) (Times (Num 100) (V (Z 7))))
     \<in> set (MinOpen (projr (build_model scenario_A_families scenario_A_days))) \<and>
   is_feasible (projr (build_model scenario_A_families scenario_A_days)) scenario_A_valuation \<and>
   scenario_A_valuation (Z 7) = 0 \<and>
   day_occupancy scenario_A_families scenario_A_valuation 7 = 0"
proof -
  have d: "7 \<in> set scenario_A_days" by (simp add: scenario_A_days_def)
  have none: "\<forall>f \<in> set scenario_A_families. 7 \<notin> set (preferences f)"
    by (simp add: scenario_A_families_def Family_def)
  from unrequested_day_closed[OF scenario_A_build d none] scenario_A_build d none
    scenario_A_feasible
  show ?thesis by (simp add: list_all_iff)
qed

section \<open>The objective\<close>

lemma rank_cases:
  "(rank::nat) < 10 \<Longrightarrow>
     rank = 0 \<or> rank = 1 \<or> rank = 2 \<or> rank = 3 \<or> rank = 4 \<or>
     rank = 5 \<or> rank = 6 \<or> rank = 7 \<or> rank = 8 \<or> rank = 9"
  by arith

lemma HAPPINESS_POINTS_lookup:
  "map_of HAPPINESS_POINTS rank = (if rank < 10 then Some (score_table ! rank) else None)"
proof (cases "rank < 10")
  case True
  from rank_cases[OF this] show ?thesis
    by (elim disjE) (simp_all add: HAPPINESS_POINTS_def score_table_def)
next
  case False
  then show ?thesis by (simp add: HAPPINESS_POINTS_def)
qed

lemma objective_ranks_Inr:
  "\<forall>(rank, day) \<in> set es. rank < 10 \<Longrightarrow>
     \<exists>t. objective_ranks f total_happiness es = Inr t \<and>
         (\<forall>v. eval v t = eval v total_happiness +
                (\<Sum>(rank, day)\<leftarrow>es. v (X (family_id f) day) * (score_table ! rank)))"
proof (induction es arbitrary: total_happiness)
  case Nil
  then show ?case by simp
next
  case (Cons e es)
  obtain rank day where e: "e = (rank, day)" by (cases e)
  with Cons.prems have r: "rank < 10" and rest: "\<forall>(rank, day) \<in> set es. rank < 10" by auto
  from Cons.IH[OF rest, of "Plus total_happiness (Times (V (X (family_id f) day)) (Num (score_table ! rank)))"]
  show ?case using e r by (auto simp: HAPPINESS_POINTS_lookup)
qed

lemma sum_list_enumerate:
  "(\<Sum>(rank, day)\<leftarrow>enumerate 0 ds. h rank day) = (\<Sum>rank\<leftarrow>[0..<length ds]. h rank (ds ! rank))"
proof -
  have "map (\<lambda>(rank, day). h rank day) (enumerate 0 ds) = map (\<lambda>rank. h rank (ds ! rank)) [0..<length ds]"
    by (rule nth_equalityI) (simp_all add: enumerate_eq_zip)
  then show ?thesis by simp
qed

lemma objective_families_Inr:
  "\<forall>f \<in> set fs. length (preferences f) = 10 \<Longrightarrow>
     \<exists>t. objective_families total_happiness fs = Inr t \<and>
         (\<forall>v. eval v t = eval v total_happiness + (\<Sum>f\<leftarrow>fs. family_happiness v f))"
proof (induction fs arbitrary: total_happiness)
  case Nil
  then show ?case by simp
next
  case (Cons f fs)
  then have len: "length (preferences f) = 10" by simp
  then have "\<forall>(rank, day) \<in> set (enumerate 0 (preferences f)). rank < 10"
    by (auto simp: in_set_enumerate_eq)
  from objective_ranks_Inr[OF this, of f total_happiness] obtain t1 where
    t1: "objective_ranks f total_happiness (enumerate 0 (preferences f)) = Inr t1"
    and e1: "\<And>v. eval v t1 = eval v total_happiness + family_happiness v f"
    unfolding sum_list_enumerate family_happiness_def len by blast
  from Cons.prems have "\<forall>f \<in> set fs. length (preferences f) = 10" by simp
  from Cons.IH[OF this, of t1] t1 e1 show ?case by (auto simp: add.assoc)
qed

lemma score_table_antimono:
  "r \<le> s \<Longrightarrow> s < 10 \<Longrightarrow> score_table ! s \<le> score_table ! r"
proof -
  assume rs: "r \<le> s" and s: "s < 10"
  have "sorted (rev score_table)" by (simp add: score_table_def)
  moreover have "length score_table = 10" by (simp add: score_table_def)
  ultimately show ?thesis using rs s
    by (simp add: sorted_rev_iff_nth_mono)
qed

lemma unassigned_family_happiness:
  assumes l: "length (preferences f) = 10"
    and z: "\<forall>d \<in> set (preferences f). binary v (X (family_id f) d) \<and> v (X (family_id f) d) \<noteq> 1"
  shows "family_happiness v f = 0"
proof -
  have "v (X (family_id f) (preferences f ! rank)) = 0" if "rank < 10" for rank
    using z l that nth_mem[of rank "preferences f"] by (auto simp: binary_def)
  then have eq: "map (\<lambda>rank. v (X (family_id f) (preferences f ! rank)) * (score_table ! rank)) [0..<10]
             = map (\<lambda>rank. 0) [0..<10]"
    by (intro map_cong[OF refl]) simp
  have "family_happiness v f = sum_list (map (\<lambda>rank. 0::int) [0..<10])"
    unfolding family_happiness_def by (simp only: eq)
  then show ?thesis by simp
qed

text \<open>
  Claim C4. For families with ten preferences, the objective that \<open>objective_rule\<close>
  builds, which the model maximizes, evaluates to the sum, over every family and every rank 0 to 9, of the
  variable of the family for its preference of that rank times the score of the rank,
  the scores being 100, 90, 85, 80, 75, 70, 60, 50, 40, 30. The scores do not
  increase with the rank, and a family none of whose variables is 1 adds 0.
\<close>

theorem objective_is_rank_score_sum:
  assumes len: "\<forall>f \<in> set fams. length (preferences f) = 10"
  shows "(\<exists>obj. objective_rule fams = Inr obj \<and>
           (\<forall>v. eval v obj = (\<Sum>f\<leftarrow>fams. family_happiness v f)) \<and>
           (\<forall>days_range m. build_model fams days_range = Inr m \<longrightarrow>
              Obj m = obj \<and> Obj_sense m = maximize)) \<and>
         score_table = [100, 90, 85, 80, 75, 70, 60, 50, 40, 30] \<and>
         (\<forall>r s. r \<le> s \<and> s < 10 \<longrightarrow> score_table ! s \<le> score_table ! r) \<and>
         (\<forall>f \<in> set fams. \<forall>v.
           (\<forall>d \<in> set (preferences f). binary v (X (family_id f) d) \<and> v (X (family_id f) d) \<noteq> 1)
           \<longrightarrow> family_happiness v f = 0)"
proof (intro conjI)
  from objective_families_Inr[OF len, of "Num 0"] obtain obj where
    o: "objective_rule fams = Inr obj"
    and e: "\<And>v. eval v obj = (\<Sum>f\<leftarrow>fams. family_happiness v f)"
    unfolding objective_rule_def by auto
  have "Obj m = obj \<and> Obj_sense m = maximize"
    if "build_model fams days_range = Inr m" for days_range m
    using build_model_Inr[OF that] o by auto
  with o e show "\<exists>obj. objective_rule fams = Inr obj \<and>
           (\<forall>v. eval v obj = (\<Sum>f\<leftarrow>fams. family_happiness v f)) \<and>
           (\<forall>days_range m. build_model fams days_range = Inr m \<longrightarrow>
              Obj m = obj \<and> Obj_sense m = maximize)"
    by blast
next
  show "score_table = [100, 90, 85, 80, 75, 70, 60, 50, 40, 30]" by (rule score_table_def)
next
  show "\<forall>r s. r \<le> s \<and> s < 10 \<longrightarrow> score_table ! s \<le> score_table ! r"
    using score_table_antimono by blast
next
  show "\<forall>f \<in> set fams. \<forall>v.
           (\<forall>d \<in> set (preferences f). binary v (X (family_id f) d) \<and> v (X (family_id f) d) \<noteq> 1)
           \<longrightarrow> family_happiness v f = 0"
    using len unassigned_family_happiness by blast
qed

theorem objective_is_rank_score_sum_witness:
  "list_all (\<lambda>f. length (preferences f) = 10) ten_preference_families \<and>
   (\<exists>obj. objective_rule ten_preference_families = Inr obj \<and>
          eval ten_preference_valuation obj = 85) \<and>
   family_happiness ten_preference_valuation (Family 2 3 [10, 9, 8, 7, 6, 5, 4, 3, 2, 1]) = 0"
proof -
  have len: "\<forall>f \<in> set ten_preference_families. length (preferences f) = 10"
    by (simp add: ten_preference_families_def Family_def)
  have upt10: "[0..<10] = [0, 1, 2, 3, 4, 5, 6, 7, 8, 9]"
    by (simp add: upt_rec)
  have h1: "family_happiness ten_preference_valuation (Family 1 4 [1, 2, 3, 4, 5, 6, 7, 8, 9, 10]) = 85"
    by (simp add: family_happiness_def upt10 Family_def ten_preference_valuation_def score_table_def)
  have f2: "Family 2 3 [10, 9, 8, 7, 6, 5, 4, 3, 2, 1] \<in> set ten_preference_families"
    by (simp add: ten_preference_families_def)
  have z2: "\<forall>d \<in> set (preferences (Family 2 3 [10, 9, 8, 7, 6, 5, 4, 3, 2, 1])).
              binary ten_preference_valuation (X (family_id (Family 2 3 [10, 9, 8, 7, 6, 5, 4, 3, 2, 1])) d) \<and>
              ten_preference_valuation (X (family_id (Family 2 3 [10, 9, 8, 7, 6, 5, 4, 3, 2, 1])) d) \<noteq> 1"
    by (simp add: Family_def binary_def ten_preference_valuation_def)
  note t = objective_is_rank_score_sum[OF len]
  from t f2 z2 have h2:
    "family_happiness ten_preference_valuation (Family 2 3 [10, 9, 8, 7, 6, 5, 4, 3, 2, 1]) = 0"
    by blast
  from t obtain obj where o: "objective_rule ten_preference_families = Inr obj"
    and e: "eval ten_preference_valuation obj
              = (\<Sum>f\<leftarrow>ten_preference_families. family_happiness ten_preference_valuation f)"
    by blast
  from e h1 h2 have "eval ten_preference_valuation obj = 85"
    by (simp add: ten_preference_families_def)
  with o len h2 show ?thesis unfolding list_all_iff by blast
qed

section \<open>What applying a raw assignment map does\<close>

text \<open>
  The families come out as the reset repository with one update for each pair whose
  family it holds, and every day receives the references and the sizes of the
  families that the pairs send to it.
\<close>

lemma sizes_update:
  "map_of fs k = Some fam \<Longrightarrow> sizes (AList.update k (assign_to fam day) fs) = sizes fs"
  by (auto simp: sizes_def update_conv' assign_to_def fun_eq_iff)

lemma sizes_reset: "sizes (reset_assignments fs) = sizes fs"
proof -
  have "map_of (reset_assignments fs) k = map_option (\<lambda>fam. fam\<lparr>assigned_day := - 1\<rparr>) (map_of fs k)"
    for k
    by (induction fs) (auto simp: reset_assignments_def)
  then show ?thesis
    by (auto simp: sizes_def fun_eq_iff option.map_comp comp_def)
qed

lemma register_compose:
  "register r2 n2 (register r1 n1 wd) = register (r1 @ r2) (n1 + n2) wd"
  by (simp add: register_def)

lemma apply_loop_days:
  "apply_loop s c raw = Inr (s', c') \<Longrightarrow>
     sizes (families s') = sizes (families s) \<and>
     (\<forall>d. map_of (days s') d =
          map_option (register (added_members (sizes (families s)) raw d)
                               (added_occupancy (sizes (families s)) raw d))
                     (map_of (days s) d))"
proof (induction s c raw arbitrary: s' c' rule: apply_loop.induct)
  case (1 self assigned_count)
  then show ?case
    by (auto simp: added_members_def added_occupancy_def register_def option.map_ident)
next
  case (2 self assigned_count fam_id day rest)
  show ?case
  proof (cases "map_of (families self) fam_id")
    case None
    then have sz: "sizes (families self) fam_id = None" by (simp add: sizes_def)
    from 2 None have "apply_loop self assigned_count rest = Inr (s', c')" by simp
    from "2.IH"(1)[OF None this] sz show ?thesis
      by (auto simp: added_members_def added_occupancy_def)
  next
    case (Some fam0)
    then have sz: "sizes (families self) fam_id = Some (n_members fam0)" by (simp add: sizes_def)
    let ?fam = "assign_to fam0 day"
    let ?self1 = "self\<lparr>families := AList.update fam_id ?fam (families self)\<rparr>"
    from "2.prems" Some obtain wd where wd: "map_of (days self) day = Some wd"
      by (auto simp: Let_def split: option.splits)
    let ?self2 = "?self1\<lparr>days := AList.update day (add_family wd fam_id ?fam) (days ?self1)\<rparr>"
    from "2.prems" Some wd have run: "apply_loop ?self2 (assigned_count + 1) rest = Inr (s', c')"
      by (simp add: Let_def)
    have wd1: "map_of (days ?self1) day = Some wd" using wd by simp
    note ih = "2.IH"(2)[OF Some refl refl wd1 run]
    have s2: "sizes (families ?self2) = sizes (families self)"
      using sizes_update[OF Some] by simp
    have n: "n_members ?fam = n_members fam0" by (simp add: assign_to_def)
    have "map_of (days s') d =
          map_option (register (added_members (sizes (families self)) ((fam_id, day) # rest) d)
                               (added_occupancy (sizes (families self)) ((fam_id, day) # rest) d))
                     (map_of (days self) d)" for d
    proof (cases "d = day")
      case True
      have a: "add_family wd fam_id ?fam = register [fam_id] (n_members fam0) wd"
        by (simp add: add_family_def register_def n)
      from ih s2 have "map_of (days s') d =
          map_option (register (added_members (sizes (families self)) rest d)
                               (added_occupancy (sizes (families self)) rest d))
                     (map_of (days ?self2) d)" by simp
      with True wd sz show ?thesis
        by (simp add: update_conv' a register_compose added_members_def added_occupancy_def)
    next
      case False
      from ih s2 have "map_of (days s') d =
          map_option (register (added_members (sizes (families self)) rest d)
                               (added_occupancy (sizes (families self)) rest d))
                     (map_of (days ?self2) d)" by simp
      with False show ?thesis
        by (simp add: update_conv' added_members_def added_occupancy_def)
    qed
    moreover from ih s2 have "sizes (families s') = sizes (families self)" by simp
    ultimately show ?thesis by blast
  qed
qed

lemma apply_raw_days:
  assumes "apply_raw s raw = Inr (s', report)"
  shows "sizes (families s') = sizes (families s)"
    and "map_of (days s') d =
          map_option (register (added_members (sizes (families s)) raw d)
                               (added_occupancy (sizes (families s)) raw d))
                     (map_of (days s) d)"
proof -
  from assms obtain c' where
    "apply_loop (s\<lparr>families := reset_assignments (families s)\<rparr>) 0 raw = Inr (s', c')"
    by (auto simp: apply_raw_def Let_def split: sum.splits)
  from apply_loop_days[OF this]
  show "sizes (families s') = sizes (families s)"
    and "map_of (days s') d =
          map_option (register (added_members (sizes (families s)) raw d)
                               (added_occupancy (sizes (families s)) raw d))
                     (map_of (days s) d)"
    by (simp_all add: sizes_reset)
qed

lemma apply_loop_families:
  "apply_loop s c raw = Inr (s', c') \<Longrightarrow> families s' = fold assign_step raw (families s)"
proof (induction s c raw arbitrary: s' c' rule: apply_loop.induct)
  case (1 self assigned_count)
  then show ?case by simp
next
  case (2 self assigned_count fam_id day rest)
  show ?case
  proof (cases "map_of (families self) fam_id")
    case None
    with "2.prems" have "apply_loop self assigned_count rest = Inr (s', c')" by simp
    from "2.IH"(1)[OF None this] None show ?thesis by (simp add: assign_step_def)
  next
    case (Some fam0)
    let ?self1 = "self\<lparr>families := AList.update fam_id (assign_to fam0 day) (families self)\<rparr>"
    from "2.prems" Some obtain wd where wd: "map_of (days ?self1) day = Some wd"
      by (auto simp: Let_def split: option.splits)
    let ?self2 = "?self1\<lparr>days := AList.update day (add_family wd fam_id (assign_to fam0 day)) (days ?self1)\<rparr>"
    from "2.prems" Some wd have run: "apply_loop ?self2 (assigned_count + 1) rest = Inr (s', c')"
      by (simp add: Let_def)
    from "2.IH"(2)[OF Some refl refl wd run] Some show ?thesis
      by (simp add: assign_step_def)
  qed
qed

lemma reset_update:
  "map_of fs k = Some fam \<Longrightarrow>
     reset_assignments (AList.update k (assign_to fam day) fs) = reset_assignments fs"
proof (induction fs)
  case Nil
  then show ?case by simp
next
  case (Cons p fs)
  obtain k' fam' where p: "p = (k', fam')" by (cases p)
  show ?case
  proof (cases "k' = k")
    case True
    with Cons.prems p have "fam' = fam" by simp
    with True p show ?thesis by (simp add: reset_assignments_def assign_to_def)
  next
    case False
    with Cons.prems p have "map_of fs k = Some fam" by simp
    from Cons.IH[OF this] False p show ?thesis by (simp add: reset_assignments_def)
  qed
qed

lemma reset_assign_step: "reset_assignments (assign_step p fs) = reset_assignments fs"
  by (cases "map_of fs (fst p)") (simp_all add: assign_step_def reset_update)

lemma reset_fold_assign_step:
  "reset_assignments (fold assign_step raw fs) = reset_assignments fs"
  by (induction raw arbitrary: fs) (simp_all add: reset_assign_step)

lemma reset_reset: "reset_assignments (reset_assignments fs) = reset_assignments fs"
  by (induction fs) (auto simp: reset_assignments_def)

lemma apply_raw_families:
  "apply_raw s raw = Inr (s', report) \<Longrightarrow>
     families s' = fold assign_step raw (reset_assignments (families s))"
proof -
  assume "apply_raw s raw = Inr (s', report)"
  then obtain c' where
    "apply_loop (s\<lparr>families := reset_assignments (families s)\<rparr>) 0 raw = Inr (s', c')"
    by (auto simp: apply_raw_def Let_def split: sum.splits)
  from apply_loop_families[OF this] show ?thesis by simp
qed

section \<open>The verdict of the solver adapter\<close>

lemma SantaSolver_solve_Returned:
  assumes "build_model fams days_range = Inr m"
    and "optimizer m solver_options = Returned res vals"
  shows "SantaSolver_solve optimizer self fams days_range =
           Inr (self\<lparr>model := Some (m\<lparr>x_value := vals\<rparr>), results := Some res\<rparr>,
                termination_condition res \<in> {optimal, feasible, maxTimeLimit})"
  using assms by (simp add: SantaSolver_solve_def)

lemma SantaSolver_solve_Raised:
  assumes "build_model fams days_range = Inr m"
    and "optimizer m solver_options = Raised"
  shows "SantaSolver_solve optimizer self fams days_range = Inr (self\<lparr>model := Some m\<rparr>, False)"
  using assms by (simp add: SantaSolver_solve_def)

lemma run_with_verdict_False:
  assumes "SantaSolver_solve optimizer (solver_engine self)
             (map snd (families self)) (map fst (days self)) = Inr (engine, False)"
  shows "SolutionManager_solve optimizer self =
           Inr (self\<lparr>solver_engine := engine\<rparr>, [No_feasible_solution_found])"
  using assms by (simp add: SolutionManager_solve_def)

lemma engine_update_families:
  "s\<lparr>solver_engine := e, families := F\<rparr> = s\<lparr>families := F, solver_engine := e\<rparr>"
  by simp

lemma engine_update_days:
  "s\<lparr>solver_engine := e, days := D\<rparr> = s\<lparr>days := D, solver_engine := e\<rparr>"
  by simp

lemma apply_loop_engine:
  "apply_loop (s\<lparr>solver_engine := e\<rparr>) c raw =
     map_sum id (\<lambda>(s', c'). (s'\<lparr>solver_engine := e\<rparr>, c')) (apply_loop s c raw)"
  by (induction s c raw rule: apply_loop.induct)
     (auto simp: Let_def engine_update_families engine_update_days split: option.splits)

lemma apply_raw_engine:
  "apply_raw (s\<lparr>solver_engine := e\<rparr>) raw =
     map_sum id (\<lambda>(s', report). (s'\<lparr>solver_engine := e\<rparr>, report)) (apply_raw s raw)"
  by (cases "apply_loop (s\<lparr>families := reset_assignments (families s)\<rparr>) 0 raw")
     (auto simp: apply_raw_def engine_update_families apply_loop_engine Let_def)

lemma print_occupancy_stats_engine:
  "print_occupancy_stats (s\<lparr>solver_engine := e\<rparr>) = print_occupancy_stats s"
  by (simp add: print_occupancy_stats_def)

lemma accepted_run:
  assumes b: "build_model (map snd (families mgr)) (map fst (days mgr)) = Inr m"
    and o: "optimizer m solver_options = Returned res vals"
    and a: "termination_condition res \<in> {optimal, feasible, maxTimeLimit}"
  shows "entities_and_log (SolutionManager_solve optimizer mgr) =
           (case raw_loop vals [] (Assignments m) of
              Inl e \<Rightarrow> Inl e
            | Inr raw \<Rightarrow>
                (case apply_raw mgr raw of
                   Inl e \<Rightarrow> Inl e
                 | Inr (s2, log1) \<Rightarrow>
                     (case print_occupancy_stats s2 of
                        Inl e \<Rightarrow> Inl e
                      | Inr log2 \<Rightarrow> Inr (families s2, days s2, log1 @ log2))))"
  using a
  by (simp add: SolutionManager_solve_def
        SantaSolver_solve_Returned[where optimizer = optimizer, OF b o]
        apply_results_def get_raw_assignments_def apply_raw_engine print_occupancy_stats_engine
        entities_and_log_def split: sum.splits)

lemma accepted_run_effect:
  assumes b: "build_model (map snd (families mgr)) (map fst (days mgr)) = Inr m"
    and o: "optimizer m solver_options = Returned res vals"
    and a: "termination_condition res \<in> {optimal, feasible, maxTimeLimit}"
    and r: "entities_and_log (SolutionManager_solve optimizer mgr) = Inr (fs, ds, report)"
  shows "\<exists>raw. raw_loop vals [] (Assignments m) = Inr raw \<and>
           fs = fold assign_step raw (reset_assignments (families mgr)) \<and>
           (\<forall>d. map_of ds d =
                 map_option (register (added_members (sizes (families mgr)) raw d)
                                      (added_occupancy (sizes (families mgr)) raw d))
                            (map_of (days mgr) d))"
proof -
  note eq = accepted_run[where optimizer = optimizer, OF b o a]
  from r eq obtain raw where raw: "raw_loop vals [] (Assignments m) = Inr raw"
    by (cases "raw_loop vals [] (Assignments m)") auto
  from r eq raw obtain s2 log1 where ap: "apply_raw mgr raw = Inr (s2, log1)"
    by (cases "apply_raw mgr raw") auto
  from r eq raw ap have "fs = families s2" and "ds = days s2"
    by (cases "print_occupancy_stats s2"; simp)+
  with apply_raw_families[OF ap] apply_raw_days(2)[OF ap] raw
  show ?thesis by blast
qed

lemma rejected_run:
  assumes "SantaSolver_solve optimizer (solver_engine mgr)
             (map snd (families mgr)) (map fst (days mgr)) = Inr (engine, False)"
  shows "entities_and_log (SolutionManager_solve optimizer mgr) =
           Inr (families mgr, days mgr, [No_feasible_solution_found])"
  by (simp add: run_with_verdict_False[OF assms] entities_and_log_def)

text \<open>
  Claim C8. Once the model is built, \<open>SantaSolver.solve\<close> returns \<open>True\<close> exactly when
  the solver returns with the termination condition optimal, feasible or
  maxTimeLimit. It always returns: an exception of the solver gives \<open>False\<close>. The
  solver is asked once, with the options fixed in the code. After an accepted
  verdict, a time-limited one included, the orchestrator applies the extracted
  assignments: what it leaves is the result of \<open>_apply_results\<close> on the values the
  solver loaded, followed by the capacity report, so every family of a selected pair
  is assigned and registered with its day; a run that ends feasible or at the time
  limit leaves the same entities and report as an optimal run with the same values.
  A run in which the solver raises leaves the same entities and report as an
  infeasible one: nothing applied, failure reported.
\<close>

theorem solve_verdict:
  assumes b: "build_model fams days_range = Inr m"
  shows "((\<exists>self'. SantaSolver_solve optimizer self fams days_range = Inr (self', True)) \<longleftrightarrow>
            (\<exists>res vals. optimizer m solver_options = Returned res vals \<and>
               termination_condition res \<in> {optimal, feasible, maxTimeLimit})) \<and>
         (\<exists>self' verdict. SantaSolver_solve optimizer self fams days_range = Inr (self', verdict)) \<and>
         (optimizer m solver_options = Raised \<longrightarrow>
            SantaSolver_solve optimizer self fams days_range = Inr (self\<lparr>model := Some m\<rparr>, False)) \<and>
         (\<forall>mgr optimizer' res res' vals.
            fams = map snd (families mgr) \<and> days_range = map fst (days mgr) \<and>
            optimizer m solver_options = Returned res vals \<and>
            termination_condition res \<in> {feasible, maxTimeLimit} \<and>
            optimizer' m solver_options = Returned res' vals \<and>
            termination_condition res' = optimal \<longrightarrow>
            entities_and_log (SolutionManager_solve optimizer mgr) =
            entities_and_log (SolutionManager_solve optimizer' mgr)) \<and>
         (\<forall>mgr optimizer' res vals.
            fams = map snd (families mgr) \<and> days_range = map fst (days mgr) \<and>
            optimizer m solver_options = Raised \<and>
            optimizer' m solver_options = Returned res vals \<and>
            termination_condition res = infeasible \<longrightarrow>
            entities_and_log (SolutionManager_solve optimizer mgr) =
              Inr (families mgr, days mgr, [No_feasible_solution_found]) \<and>
            entities_and_log (SolutionManager_solve optimizer' mgr) =
              Inr (families mgr, days mgr, [No_feasible_solution_found])) \<and>
         (\<forall>mgr res vals.
            fams = map snd (families mgr) \<and> days_range = map fst (days mgr) \<and>
            optimizer m solver_options = Returned res vals \<and>
            termination_condition res \<in> {optimal, feasible, maxTimeLimit} \<longrightarrow>
            entities_and_log (SolutionManager_solve optimizer mgr) =
              (case raw_loop vals [] (Assignments m) of
                 Inl e \<Rightarrow> Inl e
               | Inr raw \<Rightarrow>
                   (case apply_raw mgr raw of
                      Inl e \<Rightarrow> Inl e
                    | Inr (s2, log1) \<Rightarrow>
                        (case print_occupancy_stats s2 of
                           Inl e \<Rightarrow> Inl e
                         | Inr log2 \<Rightarrow> Inr (families s2, days s2, log1 @ log2))))) \<and>
         (\<forall>mgr res vals fs ds report.
            fams = map snd (families mgr) \<and> days_range = map fst (days mgr) \<and>
            optimizer m solver_options = Returned res vals \<and>
            termination_condition res \<in> {optimal, feasible, maxTimeLimit} \<and>
            entities_and_log (SolutionManager_solve optimizer mgr) = Inr (fs, ds, report) \<longrightarrow>
            (\<exists>raw. raw_loop vals [] (Assignments m) = Inr raw \<and>
               fs = fold assign_step raw (reset_assignments (families mgr)) \<and>
               (\<forall>d. map_of ds d =
                     map_option (register (added_members (sizes (families mgr)) raw d)
                                          (added_occupancy (sizes (families mgr)) raw d))
                                (map_of (days mgr) d))))"
proof -
  have c1: "(\<exists>self'. SantaSolver_solve optimizer self fams days_range = Inr (self', True)) \<longleftrightarrow>
            (\<exists>res vals. optimizer m solver_options = Returned res vals \<and>
               termination_condition res \<in> {optimal, feasible, maxTimeLimit})"
    using b by (cases "optimizer m solver_options") (auto simp: SantaSolver_solve_def)
  have c2: "\<exists>self' verdict. SantaSolver_solve optimizer self fams days_range = Inr (self', verdict)"
    using b by (cases "optimizer m solver_options") (auto simp: SantaSolver_solve_def)
  have c3: "optimizer m solver_options = Raised \<longrightarrow>
            SantaSolver_solve optimizer self fams days_range = Inr (self\<lparr>model := Some m\<rparr>, False)"
    using b by (auto intro: SantaSolver_solve_Raised)
  have c4: "entities_and_log (SolutionManager_solve optimizer mgr) =
            entities_and_log (SolutionManager_solve optimizer' mgr)"
    if h: "fams = map snd (families mgr) \<and> days_range = map fst (days mgr) \<and>
            optimizer m solver_options = Returned res vals \<and>
            termination_condition res \<in> {feasible, maxTimeLimit} \<and>
            optimizer' m solver_options = Returned res' vals \<and>
            termination_condition res' = optimal"
    for mgr :: solution_manager and optimizer' res res' vals
  proof -
    from h b have b': "build_model (map snd (families mgr)) (map fst (days mgr)) = Inr m" by simp
    from h have o1: "optimizer m solver_options = Returned res vals"
      and a1: "termination_condition res \<in> {optimal, feasible, maxTimeLimit}"
      and o2: "optimizer' m solver_options = Returned res' vals"
      and a2: "termination_condition res' \<in> {optimal, feasible, maxTimeLimit}"
      by auto
    show ?thesis
      by (simp only: accepted_run[where optimizer = optimizer, OF b' o1 a1]
                     accepted_run[where optimizer = optimizer', OF b' o2 a2])
  qed
  have c5: "entities_and_log (SolutionManager_solve optimizer mgr) =
              Inr (families mgr, days mgr, [No_feasible_solution_found]) \<and>
            entities_and_log (SolutionManager_solve optimizer' mgr) =
              Inr (families mgr, days mgr, [No_feasible_solution_found])"
    if h: "fams = map snd (families mgr) \<and> days_range = map fst (days mgr) \<and>
            optimizer m solver_options = Raised \<and>
            optimizer' m solver_options = Returned res vals \<and>
            termination_condition res = infeasible"
    for mgr :: solution_manager and optimizer' res vals
  proof -
    from h b have b': "build_model (map snd (families mgr)) (map fst (days mgr)) = Inr m" by simp
    from h have o1: "optimizer m solver_options = Raised"
      and o2: "optimizer' m solver_options = Returned res vals"
      and a2: "termination_condition res = infeasible" by auto
    have r1: "SantaSolver_solve optimizer (solver_engine mgr) (map snd (families mgr)) (map fst (days mgr))
            = Inr ((solver_engine mgr)\<lparr>model := Some m\<rparr>, False)"
      by (rule SantaSolver_solve_Raised[where optimizer = optimizer, OF b' o1])
    have r2: "SantaSolver_solve optimizer' (solver_engine mgr) (map snd (families mgr)) (map fst (days mgr))
            = Inr ((solver_engine mgr)\<lparr>model := Some (m\<lparr>x_value := vals\<rparr>), results := Some res\<rparr>, False)"
      using SantaSolver_solve_Returned[where optimizer = optimizer', OF b' o2] a2 by simp
    from rejected_run[OF r1] rejected_run[OF r2] show ?thesis ..
  qed
  have c6: "entities_and_log (SolutionManager_solve optimizer mgr) =
              (case raw_loop vals [] (Assignments m) of
                 Inl e \<Rightarrow> Inl e
               | Inr raw \<Rightarrow>
                   (case apply_raw mgr raw of
                      Inl e \<Rightarrow> Inl e
                    | Inr (s2, log1) \<Rightarrow>
                        (case print_occupancy_stats s2 of
                           Inl e \<Rightarrow> Inl e
                         | Inr log2 \<Rightarrow> Inr (families s2, days s2, log1 @ log2))))"
    if h: "fams = map snd (families mgr) \<and> days_range = map fst (days mgr) \<and>
            optimizer m solver_options = Returned res vals \<and>
            termination_condition res \<in> {optimal, feasible, maxTimeLimit}"
    for mgr :: solution_manager and res vals
  proof -
    from h b have b': "build_model (map snd (families mgr)) (map fst (days mgr)) = Inr m" by simp
    from h have o: "optimizer m solver_options = Returned res vals"
      and a: "termination_condition res \<in> {optimal, feasible, maxTimeLimit}" by auto
    show ?thesis by (rule accepted_run[where optimizer = optimizer, OF b' o a])
  qed
  have c7: "\<exists>raw. raw_loop vals [] (Assignments m) = Inr raw \<and>
               fs = fold assign_step raw (reset_assignments (families mgr)) \<and>
               (\<forall>d. map_of ds d =
                     map_option (register (added_members (sizes (families mgr)) raw d)
                                          (added_occupancy (sizes (families mgr)) raw d))
                                (map_of (days mgr) d))"
    if h: "fams = map snd (families mgr) \<and> days_range = map fst (days mgr) \<and>
            optimizer m solver_options = Returned res vals \<and>
            termination_condition res \<in> {optimal, feasible, maxTimeLimit} \<and>
            entities_and_log (SolutionManager_solve optimizer mgr) = Inr (fs, ds, report)"
    for mgr :: solution_manager and res vals fs ds report
  proof -
    from h b have b': "build_model (map snd (families mgr)) (map fst (days mgr)) = Inr m" by simp
    from h have o: "optimizer m solver_options = Returned res vals"
      and a: "termination_condition res \<in> {optimal, feasible, maxTimeLimit}"
      and r: "entities_and_log (SolutionManager_solve optimizer mgr) = Inr (fs, ds, report)"
      by auto
    show ?thesis by (rule accepted_run_effect[where optimizer = optimizer, OF b' o a r])
  qed
  from c1 c2 c3 c4 c5 c6 c7 show ?thesis by blast
qed

theorem solve_verdict_witness:
  "build_model scenario_A_families scenario_A_days =
     Inr (projr (build_model scenario_A_families scenario_A_days)) \<and>
   (\<exists>self'. SantaSolver_solve time_limited_optimizer SantaSolver
              scenario_A_families scenario_A_days = Inr (self', True)) \<and>
   entities_and_log (SolutionManager_solve time_limited_optimizer scenario_A_manager) =
     Inr ([(1, \<lparr>family_id = 1, n_members = 150, preferences = [5, 6], assigned_day = 5\<rparr>),
           (2, \<lparr>family_id = 2, n_members = 150, preferences = [5], assigned_day = 5\<rparr>)],
          [(5, \<lparr>day_id = 5, assigned_families = [1, 2], current_occupancy = 300\<rparr>),
           (6, \<lparr>day_id = 6, assigned_families = [], current_occupancy = 0\<rparr>),
           (7, \<lparr>day_id = 7, assigned_families = [], current_occupancy = 0\<rparr>)],
          [Families_assigned 2, Families_without_slot 0, Capacity_report 0 300 2 0 0]) \<and>
   entities_and_log (SolutionManager_solve time_limited_optimizer scenario_A_manager) =
   entities_and_log (SolutionManager_solve scenario_A_optimizer scenario_A_manager) \<and>
   SantaSolver_solve raising_optimizer SantaSolver scenario_A_families scenario_A_days =
     Inr (SantaSolver\<lparr>model := Some (projr (build_model scenario_A_families scenario_A_days))\<rparr>,
          False) \<and>
   entities_and_log (SolutionManager_solve raising_optimizer scenario_A_manager) =
     Inr (families scenario_A_manager, days scenario_A_manager, [No_feasible_solution_found])"
proof -
  let ?m = "projr (build_model scenario_A_families scenario_A_days)"
  let ?vals = "\<lambda>p. if p = (1, 5) \<or> p = (2, 5) then Some (1::rat) else Some 0"
  have t: "time_limited_optimizer ?m solver_options =
             Returned \<lparr>termination_condition = maxTimeLimit\<rparr> ?vals"
    by (simp add: time_limited_optimizer_def)
  have a: "scenario_A_optimizer ?m solver_options =
             Returned \<lparr>termination_condition = optimal\<rparr> ?vals"
    by (simp add: scenario_A_optimizer_def)
  have r: "raising_optimizer ?m solver_options = Raised"
    by (simp add: raising_optimizer_def)
  have i: "infeasible_optimizer ?m solver_options =
             Returned \<lparr>termination_condition = infeasible\<rparr> (\<lambda>p. None)"
    by (simp add: infeasible_optimizer_def)
  note limited = solve_verdict[OF scenario_A_build,
      where optimizer = time_limited_optimizer and self = SantaSolver]
  note raising = solve_verdict[OF scenario_A_build,
      where optimizer = raising_optimizer and self = SantaSolver]
  note limited1 = limited[THEN conjunct1]
  note limited4 = limited[THEN conjunct2, THEN conjunct2, THEN conjunct2, THEN conjunct1,
      rule_format]
  note limited6 = limited[THEN conjunct2, THEN conjunct2, THEN conjunct2, THEN conjunct2,
      THEN conjunct2, THEN conjunct1, rule_format]
  note raising3 = raising[THEN conjunct2, THEN conjunct2, THEN conjunct1, rule_format]
  note raising5 = raising[THEN conjunct2, THEN conjunct2, THEN conjunct2, THEN conjunct2,
      THEN conjunct1, rule_format]
  have "\<exists>res vals. time_limited_optimizer ?m solver_options = Returned res vals \<and>
          termination_condition res \<in> {optimal, feasible, maxTimeLimit}"
    using t by simp
  with limited1 have 1: "\<exists>self'. SantaSolver_solve time_limited_optimizer SantaSolver
              scenario_A_families scenario_A_days = Inr (self', True)"
    by (simp only:)
  have applied: "(case raw_loop ?vals [] (Assignments ?m) of
                 Inl e \<Rightarrow> Inl e
               | Inr raw \<Rightarrow>
                   (case apply_raw scenario_A_manager raw of
                      Inl e \<Rightarrow> Inl e
                    | Inr (s2, log1) \<Rightarrow>
                        (case print_occupancy_stats s2 of
                           Inl e \<Rightarrow> Inl e
                         | Inr log2 \<Rightarrow> Inr (families s2, days s2, log1 @ log2)))) =
     Inr ([(1, \<lparr>family_id = 1, n_members = 150, preferences = [5, 6], assigned_day = 5\<rparr>),
           (2, \<lparr>family_id = 2, n_members = 150, preferences = [5], assigned_day = 5\<rparr>)],
          [(5, \<lparr>day_id = 5, assigned_families = [1, 2], current_occupancy = 300\<rparr>),
           (6, \<lparr>day_id = 6, assigned_families = [], current_occupancy = 0\<rparr>),
           (7, \<lparr>day_id = 7, assigned_families = [], current_occupancy = 0\<rparr>)],
          [Families_assigned 2, Families_without_slot 0, Capacity_report 0 300 2 0 0])"
    by (simp add: scenario_A_families_def scenario_A_days_def scenario_A_manager_def
          SantaSolver_def WorkshopDay_def builder_defs apply_raw_def
          reset_assignments_def assign_to_def add_family_def print_occupancy_stats_def)
  have "entities_and_log (SolutionManager_solve time_limited_optimizer scenario_A_manager) =
          (case raw_loop ?vals [] (Assignments ?m) of
                 Inl e \<Rightarrow> Inl e
               | Inr raw \<Rightarrow>
                   (case apply_raw scenario_A_manager raw of
                      Inl e \<Rightarrow> Inl e
                    | Inr (s2, log1) \<Rightarrow>
                        (case print_occupancy_stats s2 of
                           Inl e \<Rightarrow> Inl e
                         | Inr log2 \<Rightarrow> Inr (families s2, days s2, log1 @ log2))))"
    by (rule limited6[where res = "\<lparr>termination_condition = maxTimeLimit\<rparr>" and vals = ?vals])
       (simp add: t scenario_A_manager_families scenario_A_manager_days)
  with applied have 2:
    "entities_and_log (SolutionManager_solve time_limited_optimizer scenario_A_manager) =
     Inr ([(1, \<lparr>family_id = 1, n_members = 150, preferences = [5, 6], assigned_day = 5\<rparr>),
           (2, \<lparr>family_id = 2, n_members = 150, preferences = [5], assigned_day = 5\<rparr>)],
          [(5, \<lparr>day_id = 5, assigned_families = [1, 2], current_occupancy = 300\<rparr>),
           (6, \<lparr>day_id = 6, assigned_families = [], current_occupancy = 0\<rparr>),
           (7, \<lparr>day_id = 7, assigned_families = [], current_occupancy = 0\<rparr>)],
          [Families_assigned 2, Families_without_slot 0, Capacity_report 0 300 2 0 0])"
    by (simp only:)
  have 3:
    "entities_and_log (SolutionManager_solve time_limited_optimizer scenario_A_manager) =
     entities_and_log (SolutionManager_solve scenario_A_optimizer scenario_A_manager)"
    by (rule limited4[where res = "\<lparr>termination_condition = maxTimeLimit\<rparr>"
          and res' = "\<lparr>termination_condition = optimal\<rparr>" and vals = ?vals])
       (simp add: t a scenario_A_manager_families scenario_A_manager_days)
  have 4:
    "SantaSolver_solve raising_optimizer SantaSolver scenario_A_families scenario_A_days =
     Inr (SantaSolver\<lparr>model := Some ?m\<rparr>, False)"
    by (rule raising3) (rule r)
  have 5:
    "entities_and_log (SolutionManager_solve raising_optimizer scenario_A_manager) =
     Inr (families scenario_A_manager, days scenario_A_manager, [No_feasible_solution_found])"
    by (rule raising5[where optimizer' = infeasible_optimizer
          and res = "\<lparr>termination_condition = infeasible\<rparr>" and vals = "\<lambda>p. None",
          THEN conjunct1])
       (simp add: r i scenario_A_manager_families scenario_A_manager_days)
  from scenario_A_build 1 2 3 4 5 show ?thesis by blast
qed

section \<open>The result extractor\<close>

lemma raw_loop_Inr:
  "\<forall>p \<in> set ps. xv p \<noteq> None \<Longrightarrow>
     \<exists>r. raw_loop xv acc ps = Inr r \<and>
         (\<forall>k. map_of r k =
            (case filter (\<lambda>(i, day). i = k \<and> selected xv (i, day)) ps of
               [] \<Rightarrow> map_of acc k
             | q # qs \<Rightarrow> Some (snd (last (q # qs))))) \<and>
         (distinct (map fst acc) \<longrightarrow> distinct (map fst r))"
proof (induction ps arbitrary: acc)
  case Nil
  then show ?case by simp
next
  case (Cons p ps)
  obtain i day where p: "p = (i, day)" by (cases p)
  from Cons.prems p obtain val where val: "xv (i, day) = Some val" by auto
  from Cons.prems have rest: "\<forall>p \<in> set ps. xv p \<noteq> None" by simp
  show ?case
  proof (cases "val > 1 / 2")
    case True
    from Cons.IH[OF rest, of "AList.update i day acc"] obtain r where
      r: "raw_loop xv (AList.update i day acc) ps = Inr r"
      and m: "\<And>k. map_of r k =
            (case filter (\<lambda>(i, day). i = k \<and> selected xv (i, day)) ps of
               [] \<Rightarrow> map_of (AList.update i day acc) k
             | q # qs \<Rightarrow> Some (snd (last (q # qs))))"
      and d: "distinct (map fst (AList.update i day acc)) \<longrightarrow> distinct (map fst r)"
      by blast
    have sel: "selected xv (i, day)" using val True by (simp add: selected_def)
    have "raw_loop xv acc (p # ps) = Inr r" using p val True r by simp
    moreover have "map_of r k =
            (case filter (\<lambda>(i, day). i = k \<and> selected xv (i, day)) (p # ps) of
               [] \<Rightarrow> map_of acc k
             | q # qs \<Rightarrow> Some (snd (last (q # qs))))" for k
      using m[of k] p sel by (auto simp: update_conv' split: list.splits)
    moreover have "distinct (map fst acc) \<longrightarrow> distinct (map fst r)"
      using d by (simp add: distinct_update)
    ultimately show ?thesis by blast
  next
    case False
    from Cons.IH[OF rest, of acc] obtain r where
      r: "raw_loop xv acc ps = Inr r"
      and m: "\<And>k. map_of r k =
            (case filter (\<lambda>(i, day). i = k \<and> selected xv (i, day)) ps of
               [] \<Rightarrow> map_of acc k
             | q # qs \<Rightarrow> Some (snd (last (q # qs))))"
      and d: "distinct (map fst acc) \<longrightarrow> distinct (map fst r)"
      by blast
    have sel: "\<not> selected xv (i, day)" using val False by (simp add: selected_def)
    have "raw_loop xv acc (p # ps) = Inr r" using p val False r by simp
    moreover have "map_of r k =
            (case filter (\<lambda>(i, day). i = k \<and> selected xv (i, day)) (p # ps) of
               [] \<Rightarrow> map_of acc k
             | q # qs \<Rightarrow> Some (snd (last (q # qs))))" for k
      using m[of k] p sel by auto
    ultimately show ?thesis using d by blast
  qed
qed

lemma double_selection_is_solved_model:
  "SantaSolver_solve (\<lambda>m opts. Returned \<lparr>termination_condition = optimal\<rparr> (\<lambda>p. Some 1))
     SantaSolver [Family 1 150 [5, 7]] [5, 7] = Inr (double_selection_solver, True)"
  by (simp add: SantaSolver_solve_def SantaSolver_def double_selection_solver_def builder_defs)

text \<open>
  Claim C6 says that the extractor validates that a family has at most one selected
  variable and treats a second one as an error. It does not: for the solved model of
  a family that lists the days 5 and 7, with both variables at 1, it returns the
  mapping of family 1 to day 7 and no error.
\<close>

theorem extractor_no_validation_counterexample:
  "selected (x_value (the (model double_selection_solver))) (1, 5) \<and>
   selected (x_value (the (model double_selection_solver))) (1, 7) \<and>
   get_raw_assignments double_selection_solver = Inr [(1, 7)]"
  by (simp add: double_selection_solver_def selected_def get_raw_assignments_def)

text \<open>
  Claim C6, as the code has it. When every variable has a value, the extractor
  returns a mapping with one entry for each family that has a selected variable (a
  value above one half) and no entry for the others. It checks nothing: when a family
  has several selected variables, the one that comes last in the order of the index
  set replaces the earlier ones, and no error is raised.
\<close>

theorem extractor_last_selected_wins:
  assumes m: "model self = Some m"
    and vals: "\<forall>p \<in> set (Assignments m). x_value m p \<noteq> None"
  shows "\<exists>raw. get_raw_assignments self = Inr raw \<and> distinct (map fst raw) \<and>
           (\<forall>fam_id. map_of raw fam_id =
              (case filter (\<lambda>(i, day). i = fam_id \<and> selected (x_value m) (i, day)) (Assignments m) of
                 [] \<Rightarrow> None
               | q # qs \<Rightarrow> Some (snd (last (q # qs)))))"
proof -
  from raw_loop_Inr[OF vals, of "[]"] obtain raw where
    r: "raw_loop (x_value m) [] (Assignments m) = Inr raw"
    and l: "\<And>k. map_of raw k =
            (case filter (\<lambda>(i, day). i = k \<and> selected (x_value m) (i, day)) (Assignments m) of
               [] \<Rightarrow> map_of [] k
             | q # qs \<Rightarrow> Some (snd (last (q # qs))))"
    and d: "distinct (map fst raw)"
    by auto
  from r m have "get_raw_assignments self = Inr raw" by (simp add: get_raw_assignments_def)
  moreover from l have "\<forall>fam_id. map_of raw fam_id =
              (case filter (\<lambda>(i, day). i = fam_id \<and> selected (x_value m) (i, day)) (Assignments m) of
                 [] \<Rightarrow> None
               | q # qs \<Rightarrow> Some (snd (last (q # qs))))"
    by (simp cong: list.case_cong)
  ultimately show ?thesis using d by blast
qed

theorem extractor_last_selected_wins_witness:
  "model double_selection_solver = Some (the (model double_selection_solver)) \<and>
   list_all (\<lambda>p. x_value (the (model double_selection_solver)) p \<noteq> None)
     (Assignments (the (model double_selection_solver))) \<and>
   (\<exists>raw. get_raw_assignments double_selection_solver = Inr raw \<and> map_of raw 1 = Some 7)"
proof -
  have m: "model double_selection_solver = Some (the (model double_selection_solver))"
    by (simp add: double_selection_solver_def)
  have v: "\<forall>p \<in> set (Assignments (the (model double_selection_solver))).
      x_value (the (model double_selection_solver)) p \<noteq> None"
    by (simp add: double_selection_solver_def)
  from extractor_last_selected_wins[OF m v] obtain raw where
    r: "get_raw_assignments double_selection_solver = Inr raw"
    and l: "map_of raw 1 =
              (case filter (\<lambda>(i, day). i = 1 \<and>
                       selected (x_value (the (model double_selection_solver))) (i, day))
                     (Assignments (the (model double_selection_solver))) of
                 [] \<Rightarrow> None
               | q # qs \<Rightarrow> Some (snd (last (q # qs))))"
    by blast
  from l have "map_of raw 1 = Some 7"
    by (simp add: double_selection_solver_def selected_def)
  with r m v show ?thesis unfolding list_all_iff by blast
qed

section \<open>A rejected verdict\<close>

lemma scenario_A_rejected:
  "SantaSolver_solve infeasible_optimizer (solver_engine scenario_A_manager)
     (map snd (families scenario_A_manager)) (map fst (days scenario_A_manager)) =
   Inr (SantaSolver\<lparr>model := Some ((projr (build_model scenario_A_families scenario_A_days))
                                       \<lparr>x_value := (\<lambda>p. None)\<rparr>),
                     results := Some \<lparr>termination_condition = infeasible\<rparr>\<rparr>, False)"
proof -
  have o: "infeasible_optimizer (projr (build_model scenario_A_families scenario_A_days)) solver_options
           = Returned \<lparr>termination_condition = infeasible\<rparr> (\<lambda>p. None)"
    by (simp add: infeasible_optimizer_def)
  have e: "solver_engine scenario_A_manager = SantaSolver"
    by (simp add: scenario_A_manager_def)
  show ?thesis
    unfolding scenario_A_manager_families scenario_A_manager_days e
    by (simp add: SantaSolver_solve_Returned[where optimizer = infeasible_optimizer, OF scenario_A_build o])
qed

text \<open>
  Claim C7. When the solver adapter reports a rejected verdict, the orchestrator
  returns normally with the report that no feasible solution was found, and both
  repositories are what they were: every family that was unassigned stays
  unassigned, and no day changes its occupancy or its members.
\<close>

theorem rejected_verdict_applies_nothing:
  assumes "SantaSolver_solve optimizer (solver_engine self)
             (map snd (families self)) (map fst (days self)) = Inr (engine, False)"
  shows "\<exists>self'. SolutionManager_solve optimizer self = Inr (self', [No_feasible_solution_found]) \<and>
           families self' = families self \<and> days self' = days self \<and>
           ((\<forall>(k, fam) \<in> set (families self). assigned_day fam = - 1) \<longrightarrow>
            (\<forall>(k, fam) \<in> set (families self'). assigned_day fam = - 1))"
  using run_with_verdict_False[OF assms] by simp

theorem rejected_verdict_applies_nothing_witness:
  "SantaSolver_solve infeasible_optimizer (solver_engine scenario_A_manager)
     (map snd (families scenario_A_manager)) (map fst (days scenario_A_manager)) =
   Inr (SantaSolver\<lparr>model := Some ((projr (build_model scenario_A_families scenario_A_days))
                                       \<lparr>x_value := (\<lambda>p. None)\<rparr>),
                     results := Some \<lparr>termination_condition = infeasible\<rparr>\<rparr>, False) \<and>
   entities_and_log (SolutionManager_solve infeasible_optimizer scenario_A_manager) =
     Inr ([(1, Family 1 150 [5, 6]), (2, Family 2 150 [5])],
          [(5, WorkshopDay 5), (6, WorkshopDay 6), (7, WorkshopDay 7)],
          [No_feasible_solution_found])"
proof -
  from rejected_verdict_applies_nothing[OF scenario_A_rejected] obtain self' where
    "SolutionManager_solve infeasible_optimizer scenario_A_manager
       = Inr (self', [No_feasible_solution_found])"
    "families self' = families scenario_A_manager" "days self' = days scenario_A_manager"
    by blast
  then have "entities_and_log (SolutionManager_solve infeasible_optimizer scenario_A_manager) =
     Inr ([(1, Family 1 150 [5, 6]), (2, Family 2 150 [5])],
          [(5, WorkshopDay 5), (6, WorkshopDay 6), (7, WorkshopDay 7)],
          [No_feasible_solution_found])"
    by (simp add: entities_and_log_def scenario_A_manager_def)
  with scenario_A_rejected show ?thesis by blast
qed

section \<open>Applying results twice\<close>

lemma scenario_A_run:
  "entities_and_log (SolutionManager_solve scenario_A_optimizer scenario_A_manager) =
     Inr ([(1, \<lparr>family_id = 1, n_members = 150, preferences = [5, 6], assigned_day = 5\<rparr>),
           (2, \<lparr>family_id = 2, n_members = 150, preferences = [5], assigned_day = 5\<rparr>)],
          [(5, \<lparr>day_id = 5, assigned_families = [1, 2], current_occupancy = 300\<rparr>),
           (6, \<lparr>day_id = 6, assigned_families = [], current_occupancy = 0\<rparr>),
           (7, \<lparr>day_id = 7, assigned_families = [], current_occupancy = 0\<rparr>)],
          [Families_assigned 2, Families_without_slot 0, Capacity_report 0 300 2 0 0])"
  by (simp add: entities_and_log_def SolutionManager_solve_def SantaSolver_solve_def
        scenario_A_manager_def scenario_A_optimizer_def SantaSolver_def WorkshopDay_def
        builder_defs apply_results_def apply_raw_def get_raw_assignments_def
        reset_assignments_def assign_to_def add_family_def print_occupancy_stats_def)

text \<open>
  What a second application does, in general. The assigned days of the families
  come out the same, but every day receives the members and the occupancy of the
  first application once more.
\<close>

lemma reapply_adds_again:
  assumes 1: "apply_raw s raw = Inr (s1, report1)"
    and 2: "apply_raw s1 raw = Inr (s2, report2)"
    and wd: "map_of (days s) d = Some wd"
  shows "map_of (days s1) d =
           Some (register (added_members (sizes (families s)) raw d)
                          (added_occupancy (sizes (families s)) raw d) wd)"
    and "map_of (days s2) d =
           Some (register (added_members (sizes (families s)) raw d
                             @ added_members (sizes (families s)) raw d)
                          (2 * added_occupancy (sizes (families s)) raw d) wd)"
proof -
  show a: "map_of (days s1) d =
           Some (register (added_members (sizes (families s)) raw d)
                          (added_occupancy (sizes (families s)) raw d) wd)"
    using apply_raw_days(2)[OF 1, of d] wd by simp
  show "map_of (days s2) d =
           Some (register (added_members (sizes (families s)) raw d
                             @ added_members (sizes (families s)) raw d)
                          (2 * added_occupancy (sizes (families s)) raw d) wd)"
    using apply_raw_days(2)[OF 2, of d] a apply_raw_days(1)[OF 1]
    by (simp add: register_compose)
qed

lemma reapply_same_families:
  assumes 1: "apply_raw s raw = Inr (s1, report1)"
    and 2: "apply_raw s1 raw = Inr (s2, report2)"
  shows "families s2 = families s1"
proof -
  have "families s2 = fold assign_step raw (reset_assignments (families s1))"
    by (rule apply_raw_families[OF 2])
  also have "reset_assignments (families s1) = reset_assignments (families s)"
    by (simp only: apply_raw_families[OF 1] reset_fold_assign_step reset_reset)
  also have "fold assign_step raw (reset_assignments (families s)) = families s1"
    by (simp only: apply_raw_families[OF 1])
  finally show ?thesis .
qed

text \<open>
  Claim C9 says that applying the results again leaves no state of the first run
  behind, the occupancy and the members of every day included. The code resets the
  assigned day of every family before it applies the results, but it does not reset
  the days: in the scenario, after the run of the orchestrator day 5 has the members
  1 and 2 and the occupancy 300, and after the results are applied again it has the
  members 1, 2, 1, 2 and the occupancy 600. The assigned days of the families are
  the same after both.
\<close>

theorem reapply_accumulates_on_workshop_days:
  "entities_and_log (SolutionManager_solve scenario_A_optimizer scenario_A_manager) =
     Inr ([(1, \<lparr>family_id = 1, n_members = 150, preferences = [5, 6], assigned_day = 5\<rparr>),
           (2, \<lparr>family_id = 2, n_members = 150, preferences = [5], assigned_day = 5\<rparr>)],
          [(5, \<lparr>day_id = 5, assigned_families = [1, 2], current_occupancy = 300\<rparr>),
           (6, \<lparr>day_id = 6, assigned_families = [], current_occupancy = 0\<rparr>),
           (7, \<lparr>day_id = 7, assigned_families = [], current_occupancy = 0\<rparr>)],
          [Families_assigned 2, Families_without_slot 0, Capacity_report 0 300 2 0 0]) \<and>
   entities_and_log
     (apply_results (fst (projr (SolutionManager_solve scenario_A_optimizer scenario_A_manager)))) =
     Inr ([(1, \<lparr>family_id = 1, n_members = 150, preferences = [5, 6], assigned_day = 5\<rparr>),
           (2, \<lparr>family_id = 2, n_members = 150, preferences = [5], assigned_day = 5\<rparr>)],
          [(5, \<lparr>day_id = 5, assigned_families = [1, 2, 1, 2], current_occupancy = 600\<rparr>),
           (6, \<lparr>day_id = 6, assigned_families = [], current_occupancy = 0\<rparr>),
           (7, \<lparr>day_id = 7, assigned_families = [], current_occupancy = 0\<rparr>)],
          [Families_assigned 2, Families_without_slot 0])"
  by (simp add: entities_and_log_def SolutionManager_solve_def SantaSolver_solve_def
        scenario_A_manager_def scenario_A_optimizer_def SantaSolver_def WorkshopDay_def
        builder_defs apply_results_def apply_raw_def get_raw_assignments_def
        reset_assignments_def assign_to_def add_family_def print_occupancy_stats_def)

section \<open>Family identifiers that the repository does not hold\<close>

lemma apply_loop_append:
  "apply_loop s c (xs @ ys) =
     (case apply_loop s c xs of Inl e \<Rightarrow> Inl e | Inr (s', c') \<Rightarrow> apply_loop s' c' ys)"
  by (induction s c xs rule: apply_loop.induct)
     (auto simp: Let_def split: option.splits sum.splits)

lemma apply_loop_keys:
  "apply_loop s c xs = Inr (s', c') \<Longrightarrow> fst ` set (families s') = fst ` set (families s)"
proof (induction s c xs rule: apply_loop.induct)
  case (1 self assigned_count)
  then show ?case by simp
next
  case (2 self assigned_count fam_id day rest)
  show ?case
  proof (cases "map_of (families self) fam_id")
    case None
    with 2 show ?thesis by simp
  next
    case (Some fam0)
    then have k: "fam_id \<in> fst ` set (families self)"
      by (metis map_of_eq_None_iff option.distinct(1))
    from 2 Some show ?thesis
      using k by (auto simp: Let_def dom_update split: option.splits)
  qed
qed

lemma reset_assignments_keys: "fst ` set (reset_assignments fs) = fst ` set fs"
  by (force simp: reset_assignments_def)

lemma apply_loop_unknown:
  assumes "fam_id \<notin> fst ` set (families s)"
  shows "apply_loop s c (before @ (fam_id, day) # after) = apply_loop s c (before @ after)"
proof (cases "apply_loop s c before")
  case (Inl e)
  then show ?thesis by (simp add: apply_loop_append)
next
  case (Inr r)
  obtain s' c' where r: "r = (s', c')" by (cases r)
  from apply_loop_keys[OF Inr[unfolded r]] assms
  have "map_of (families s') fam_id = None" by (simp add: map_of_eq_None_iff)
  with Inr r show ?thesis by (simp add: apply_loop_append)
qed

lemma apply_raw_unknown:
  assumes "fam_id \<notin> fst ` set (families self)"
  shows "apply_raw self (before @ (fam_id, day) # after) = apply_raw self (before @ after)"
proof -
  from assms have "fam_id \<notin> fst ` set (families (self\<lparr>families := reset_assignments (families self)\<rparr>))"
    by (simp add: reset_assignments_keys)
  from apply_loop_unknown[OF this] show ?thesis
    by (simp add: apply_raw_def)
qed

text \<open>
  Claim C10. When the raw assignment map that the extractor returns holds a pair
  whose family identifier is no key of the families repository, \<open>_apply_results\<close>
  skips the pair: it leaves the same repositories, the same counts and the same
  outcome (result or exception) as for the map without that pair.
\<close>

theorem unknown_family_skipped:
  assumes raw: "get_raw_assignments (solver_engine self) = Inr (before @ (fam_id, day) # after)"
    and unknown: "fam_id \<notin> fst ` set (families self)"
  shows "apply_results self = apply_raw self (before @ after)"
  using raw apply_raw_unknown[OF unknown] by (simp add: apply_results_def)

theorem unknown_family_skipped_witness:
  "get_raw_assignments (solver_engine stale_engine_manager) = Inr ([(1, 5)] @ (2, 5) # []) \<and>
   2 \<notin> fst ` set (families stale_engine_manager) \<and>
   entities_and_log (apply_results stale_engine_manager) =
     Inr ([(1, \<lparr>family_id = 1, n_members = 150, preferences = [5, 6], assigned_day = 5\<rparr>)],
          [(5, \<lparr>day_id = 5, assigned_families = [1], current_occupancy = 150\<rparr>),
           (6, \<lparr>day_id = 6, assigned_families = [], current_occupancy = 0\<rparr>),
           (7, \<lparr>day_id = 7, assigned_families = [], current_occupancy = 0\<rparr>)],
          [Families_assigned 1, Families_without_slot 0])"
proof -
  have raw: "get_raw_assignments (solver_engine stale_engine_manager) = Inr ([(1, 5)] @ (2, 5) # [])"
    by (simp add: stale_engine_manager_def get_raw_assignments_def SantaSolver_solve_def
          scenario_A_families_def scenario_A_days_def scenario_A_optimizer_def SantaSolver_def
          builder_defs)
  have k: "2 \<notin> fst ` set (families stale_engine_manager)"
    by (simp add: stale_engine_manager_def)
  have v: "entities_and_log (apply_raw stale_engine_manager ([(1, 5)] @ [])) =
     Inr ([(1, \<lparr>family_id = 1, n_members = 150, preferences = [5, 6], assigned_day = 5\<rparr>)],
          [(5, \<lparr>day_id = 5, assigned_families = [1], current_occupancy = 150\<rparr>),
           (6, \<lparr>day_id = 6, assigned_families = [], current_occupancy = 0\<rparr>),
           (7, \<lparr>day_id = 7, assigned_families = [], current_occupancy = 0\<rparr>)],
          [Families_assigned 1, Families_without_slot 0])"
    by (simp add: entities_and_log_def apply_raw_def stale_engine_manager_def
          WorkshopDay_def Family_def reset_assignments_def assign_to_def add_family_def)
  from unknown_family_skipped[OF raw k] raw k v
  show ?thesis by simp
qed

end
